theory Spec2Isabelle
  imports Main
begin

section \<open>The data model of ww.py\<close>

text \<open>
  Python objects are referred to by identity, so an actor is a natural number (its
  identity) and the attributes of every object live in a store \<open>heap\<close>.  An object
  that has been removed from the stage keeps its attributes: a Monster that removed itself
  goes on running its own methods.  All actors refer to the one Stage of the process
  through their attribute \<^verbatim>\<open>_stage\<close>, which is therefore not stored per actor.
  Icons, pixel sizes and the screen are rendering data and are left out.
\<close>

datatype error = ValueError | ZeroDivisionError | RecursionError | AttributeError

text \<open>The class of an object; \<open>sticky\<close> is a subclass of \<open>Box\<close>, \<open>KeyboardPlayer\<close> of
  \<open>Player\<close>, and every class is a subclass of \<open>Actor\<close>.\<close>

datatype kind = Actor | Player | KeyboardPlayer | Box | Wall | Monster | sticky

text \<open>
  The attributes \<^verbatim>\<open>_x\<close>, \<^verbatim>\<open>_y\<close>, \<^verbatim>\<open>_delay\<close>, \<^verbatim>\<open>_delay_count\<close> of every Actor,
  \<^verbatim>\<open>_last_event\<close> of a KeyboardPlayer, \<^verbatim>\<open>_dx\<close>, \<^verbatim>\<open>_dy\<close> and \<^verbatim>\<open>inside_sticky\<close> of a
  Monster.  \<open>a_is_dead\<close> records that the instance attribute \<^verbatim>\<open>is_dead\<close> has been
  assigned \<^verbatim>\<open>True\<close> on this object.  Python lets any object carry any attribute, and
  \<^verbatim>\<open>sticky.move\<close> may assign \<^verbatim>\<open>inside_sticky\<close> on an object that is not a Monster, so
  all objects have all fields.
\<close>

record actor =
  cls :: kind
  a_x :: int
  a_y :: int
  a_delay :: int
  a_delay_count :: int
  a_last_event :: "int option"
  a_dx :: int
  a_dy :: int
  inside_sticky :: bool
  a_is_dead :: bool

text \<open>
  The Stage: \<^verbatim>\<open>_actors\<close> (a Python list of references, in insertion order),
  \<^verbatim>\<open>_player\<close>, \<^verbatim>\<open>_width\<close>, \<^verbatim>\<open>_height\<close>, the object store, and whether the class
  attribute \<^verbatim>\<open>Actor.is_dead\<close> has been rebound to \<^verbatim>\<open>True\<close>.  The last field belongs to the
  interpreter: \<open>move_depth_limit\<close> is the number of nested calls of \<^verbatim>\<open>move\<close> of Box and
  sticky objects that its recursion limit leaves to a push started by
  \<^verbatim>\<open>KeyboardPlayer.move\<close>.  Everywhere else the depth of the stack does not depend on the
  stage, and the limit is taken to allow it.
\<close>

record stage =
  actors :: "nat list"
  player :: "nat option"
  width :: int
  height :: int
  heap :: "nat \<Rightarrow> actor"
  Actor_is_dead :: bool
  move_depth_limit :: nat

section \<open>Stage\<close>

definition is_in_bounds_x :: "stage \<Rightarrow> int \<Rightarrow> bool" where
  "is_in_bounds_x s x = (0 \<le> x \<and> x < width s)"

definition is_in_bounds_y :: "stage \<Rightarrow> int \<Rightarrow> bool" where
  "is_in_bounds_y s y = (0 \<le> y \<and> y < height s)"

definition is_in_bounds :: "stage \<Rightarrow> int \<Rightarrow> int \<Rightarrow> bool" where
  "is_in_bounds s x y = (is_in_bounds_x s x \<and> is_in_bounds_y s y)"

definition get_position :: "stage \<Rightarrow> nat \<Rightarrow> int \<times> int" where
  "get_position s a = (a_x (heap s a), a_y (heap s a))"

definition set_position :: "stage \<Rightarrow> nat \<Rightarrow> int \<Rightarrow> int \<Rightarrow> stage" where
  "set_position s a x y = s\<lparr>heap := (heap s)(a := (heap s a)\<lparr>a_x := x, a_y := y\<rparr>)\<rparr>"

text \<open>\<^verbatim>\<open>get_actor\<close>: the first actor of the list at the coordinates, or \<^verbatim>\<open>None\<close>.\<close>

definition get_actor :: "stage \<Rightarrow> int \<Rightarrow> int \<Rightarrow> nat option" where
  "get_actor s x y = find (\<lambda>a. get_position s a = (x, y)) (actors s)"

definition add_actor :: "stage \<Rightarrow> nat \<Rightarrow> stage" where
  "add_actor s a = s\<lparr>actors := actors s @ [a]\<rparr>"

text \<open>\<^verbatim>\<open>list.remove\<close> deletes the first occurrence and raises ValueError when there is none.\<close>

definition remove_actor :: "stage \<Rightarrow> nat \<Rightarrow> error + stage" where
  "remove_actor s a =
     (if a \<in> set (actors s) then Inr (s\<lparr>actors := remove1 a (actors s)\<rparr>) else Inl ValueError)"

definition set_player :: "stage \<Rightarrow> nat \<Rightarrow> stage" where
  "set_player s p = add_actor (s\<lparr>player := Some p\<rparr>) p"

section \<open>Actor\<close>

text \<open>\<^verbatim>\<open>Actor.move\<close> just moves and returns \<^verbatim>\<open>True\<close>.\<close>

definition Actor_move :: "stage \<Rightarrow> nat \<Rightarrow> nat \<Rightarrow> int \<Rightarrow> int \<Rightarrow> stage" where
  "Actor_move s self other dx dy =
     set_position s self (a_x (heap s self) + dx) (a_y (heap s self) + dy)"

text \<open>\<^verbatim>\<open>Actor.delay\<close>: Python's \<^verbatim>\<open>%\<close> raises on a zero divisor; on a non-zero one it is
  the floored remainder, as \<open>mod\<close> on \<open>int\<close>.\<close>

definition delay :: "stage \<Rightarrow> nat \<Rightarrow> error + (stage \<times> bool)" where
  "delay s self =
     (if a_delay (heap s self) = 0 then Inl ZeroDivisionError
      else let c = (a_delay_count (heap s self) + 1) mod a_delay (heap s self)
           in Inr (s\<lparr>heap := (heap s)(self := (heap s self)\<lparr>a_delay_count := c\<rparr>)\<rparr>, c = 0))"

section \<open>Box and sticky\<close>

definition isinstance_Box :: "kind \<Rightarrow> bool" where
  "isinstance_Box k = (k = Box \<or> k = sticky)"

lemma get_actor_SomeD:
  "get_actor s x y = Some b \<Longrightarrow> b \<in> set (actors s) \<and> a_x (heap s b) = x \<and> a_y (heap s b) = y"
  unfolding get_actor_def get_position_def find_Some_iff by auto

lemma get_actor_not_member: "a \<notin> set (actors s) \<Longrightarrow> get_actor s x y \<noteq> Some a"
  by (auto dest: get_actor_SomeD)

text \<open>
  \<^verbatim>\<open>Box.move\<close> and \<^verbatim>\<open>sticky.move\<close>.  The call \<^verbatim>\<open>get_actor(new_x,new_y).move(self,dx,dy)\<close> is
  dispatched on the class of the occupant, which is a Box or a sticky there.  The result
  is the stage and the value returned (\<^verbatim>\<open>None\<close>, \<^verbatim>\<open>True\<close> or \<^verbatim>\<open>False\<close>); \<^verbatim>\<open>sticky.move\<close> has no
  return statement.

  Every Box of a row that is pushed holds a frame of the interpreter's stack until the
  push returns, and every sticky two (that of \<^verbatim>\<open>sticky.move\<close> and that of the \<^verbatim>\<open>Box.move\<close> it
  calls).  The first argument is the number of nested calls of \<^verbatim>\<open>move\<close> that the interpreter
  still allows, this one included: with none left the call raises RecursionError, which
  nothing in the program catches.  With \<^verbatim>\<open>(dx,dy) = (0,0)\<close> the occupant of the destination
  is asked to move onto itself, and the recursion ends in this way.
\<close>

fun Box_move_at ::
    "nat \<Rightarrow> stage \<Rightarrow> nat \<Rightarrow> nat \<Rightarrow> int \<Rightarrow> int \<Rightarrow> error + (stage \<times> bool option)"
  and sticky_move_at ::
    "nat \<Rightarrow> stage \<Rightarrow> nat \<Rightarrow> nat \<Rightarrow> int \<Rightarrow> int \<Rightarrow> error + (stage \<times> bool option)"
where
  "Box_move_at n s self other dx dy =
     (if n = 0 then Inl RecursionError
      else
        let new_x = a_x (heap s self) + dx; new_y = a_y (heap s self) + dy in
        if is_in_bounds s new_x new_y \<and> get_actor s new_x new_y = None then
          Inr (Actor_move s self other dx dy, Some True)
        else
          (case get_actor s new_x new_y of
             None \<Rightarrow> Inr (s, Some False)
           | Some b \<Rightarrow>
               if isinstance_Box (cls (heap s b)) then
                 (case (if cls (heap s b) = sticky then sticky_move_at (n - 1) s b self dx dy
                        else Box_move_at (n - 1) s b self dx dy) of
                    Inl e \<Rightarrow> Inl e
                  | Inr (s1, r) \<Rightarrow>
                      if get_actor s1 new_x new_y = None then
                        Inr (Actor_move s1 self other dx dy, Some True)
                      else Inr (s1, Some False))
               else Inr (s, Some False)))"
| "sticky_move_at n s self other dx dy =
     (if n = 0 then Inl RecursionError
      else
        let new_x = a_x (heap s self) + dx; new_y = a_y (heap s self) + dy in
        if (case get_actor s new_x new_y of None \<Rightarrow> False | Some m \<Rightarrow> cls (heap s m) = Monster)
        then
          (let s1 = Actor_move s self other dx dy in
           case get_actor s1 new_x new_y of
             None \<Rightarrow> Inl AttributeError
           | Some m \<Rightarrow> Inr (s1\<lparr>heap := (heap s1)(m := (heap s1 m)\<lparr>inside_sticky := True\<rparr>)\<rparr>, None))
        else
          (case Box_move_at (n - 1) s self other dx dy of
             Inl e \<Rightarrow> Inl e
           | Inr (s1, r) \<Rightarrow> Inr (s1, None)))"

declare Box_move_at.simps [simp del] sticky_move_at.simps [simp del]

text \<open>\<^verbatim>\<open>Box.move\<close> and \<^verbatim>\<open>sticky.move\<close> as \<^verbatim>\<open>KeyboardPlayer.move\<close> calls them.\<close>

definition Box_move ::
  "stage \<Rightarrow> nat \<Rightarrow> nat \<Rightarrow> int \<Rightarrow> int \<Rightarrow> error + (stage \<times> bool option)" where
  "Box_move s self other dx dy = Box_move_at (move_depth_limit s) s self other dx dy"

definition sticky_move ::
  "stage \<Rightarrow> nat \<Rightarrow> nat \<Rightarrow> int \<Rightarrow> int \<Rightarrow> error + (stage \<times> bool option)" where
  "sticky_move s self other dx dy = sticky_move_at (move_depth_limit s) s self other dx dy"

text \<open>The method \<^verbatim>\<open>move\<close> of an object that is an instance of Box, as Python looks it up.\<close>

definition move_of_Box_instance ::
  "stage \<Rightarrow> nat \<Rightarrow> nat \<Rightarrow> int \<Rightarrow> int \<Rightarrow> error + (stage \<times> bool option)" where
  "move_of_Box_instance s b other dx dy =
     (if cls (heap s b) = sticky then sticky_move s b other dx dy else Box_move s b other dx dy)"

section \<open>KeyboardPlayer\<close>

text \<open>The key codes of pygame: the character codes of the lower-case letters.\<close>

definition K_a :: int where "K_a = 97"
definition K_c :: int where "K_c = 99"
definition K_d :: int where "K_d = 100"
definition K_e :: int where "K_e = 101"
definition K_q :: int where "K_q = 113"
definition K_s :: int where "K_s = 115"
definition K_w :: int where "K_w = 119"
definition K_z :: int where "K_z = 122"

definition handle_event :: "stage \<Rightarrow> nat \<Rightarrow> int \<Rightarrow> stage" where
  "handle_event s self event =
     s\<lparr>heap := (heap s)(self := (heap s self)\<lparr>a_last_event := Some event\<rparr>)\<rparr>"

text \<open>The chain of \<^verbatim>\<open>if\<close> statements of \<^verbatim>\<open>KeyboardPlayer.step\<close> that set \<^verbatim>\<open>dx, dy\<close>, in the
  order of the source; \<^verbatim>\<open>None\<close> when no key matches.\<close>

definition key_direction :: "int \<Rightarrow> (int \<times> int) option" where
  "key_direction event =
     (let d = None;
          d = (if event = K_s then Some (0, 1) else d);
          d = (if event = K_w then Some (0, - 1) else d);
          d = (if event = K_d then Some (1, 0) else d);
          d = (if event = K_a then Some (- 1, 0) else d);
          d = (if event = K_q then Some (- 1, - 1) else d);
          d = (if event = K_e then Some (1, - 1) else d);
          d = (if event = K_c then Some (1, 1) else d);
          d = (if event = K_z then Some (- 1, 1) else d)
      in d)"


definition KeyboardPlayer_move ::
  "stage \<Rightarrow> nat \<Rightarrow> nat \<Rightarrow> int \<Rightarrow> int \<Rightarrow> error + (stage \<times> bool option)" where
  "KeyboardPlayer_move s self other dx dy =
     (let new_x = a_x (heap s self) + dx; new_y = a_y (heap s self) + dy in
      if is_in_bounds s new_x new_y \<and> get_actor s new_x new_y = None then
        Inr (Actor_move s self other dx dy, Some True)
      else
        (case get_actor s new_x new_y of
           None \<Rightarrow> Inr (s, Some False)
         | Some b \<Rightarrow>
             if cls (heap s b) = Monster then
               (case remove_actor
                       (s\<lparr>heap := (heap s)(self := (heap s self)\<lparr>a_is_dead := True\<rparr>)\<rparr>) self of
                  Inl e \<Rightarrow> Inl e
                | Inr s1 \<Rightarrow> Inr (s1, Some True))
             else if isinstance_Box (cls (heap s b)) then
               (case move_of_Box_instance s b self dx dy of
                  Inl e \<Rightarrow> Inl e
                | Inr (s1, r) \<Rightarrow>
                    if get_actor s1 new_x new_y = None then
                      Inr (Actor_move s1 self other dx dy, Some True)
                    else Inr (s1, Some False))
             else Inr (s, Some False)))"

definition KeyboardPlayer_step :: "stage \<Rightarrow> nat \<Rightarrow> error + stage" where
  "KeyboardPlayer_step s self =
     (case a_last_event (heap s self) of
        None \<Rightarrow> Inr s
      | Some event \<Rightarrow>
          (case (case key_direction event of
                   None \<Rightarrow> Inr s
                 | Some (dx, dy) \<Rightarrow>
                     (case KeyboardPlayer_move s self self dx dy of
                        Inl e \<Rightarrow> Inl e
                      | Inr (s1, r) \<Rightarrow> Inr s1)) of
             Inl e \<Rightarrow> Inl e
           | Inr s1 \<Rightarrow> Inr (s1\<lparr>heap := (heap s1)(self := (heap s1 self)\<lparr>a_last_event := None\<rparr>)\<rparr>)))"

section \<open>Monster\<close>

text \<open>\<^verbatim>\<open>Monster.is_dead\<close>: an actor is truthy and \<^verbatim>\<open>None\<close> is falsy, so the test is that all
  eight lookups found an actor; then the class attribute \<^verbatim>\<open>Actor.is_dead\<close> is rebound.
  The source assigns the instance attribute \<^verbatim>\<open>is_dead\<close> on KeyboardPlayer objects only, so
  the calls \<^verbatim>\<open>self.is_dead()\<close> of \<^verbatim>\<open>Monster.step\<close> and \<^verbatim>\<open>Monster.move\<close> find this method.\<close>

definition Monster_is_dead :: "stage \<Rightarrow> nat \<Rightarrow> stage \<times> bool" where
  "Monster_is_dead s self =
     (let x_val = fst (get_position s self); y_val = snd (get_position s self);
          cord1 = get_actor s (x_val + 1) y_val;
          cord2 = get_actor s (x_val - 1) y_val;
          cord3 = get_actor s x_val (y_val + 1);
          cord4 = get_actor s x_val (y_val - 1);
          cord5 = get_actor s (x_val + 1) (y_val + 1);
          cord6 = get_actor s (x_val - 1) (y_val - 1);
          cord7 = get_actor s (x_val + 1) (y_val - 1);
          cord8 = get_actor s (x_val - 1) (y_val + 1)
      in if cord1 \<noteq> None \<and> cord2 \<noteq> None \<and> cord3 \<noteq> None \<and> cord4 \<noteq> None \<and>
            cord5 \<noteq> None \<and> cord6 \<noteq> None \<and> cord7 \<noteq> None \<and> cord8 \<noteq> None
         then (s\<lparr>Actor_is_dead := True\<rparr>, True)
         else (s, False))"

text \<open>\<^verbatim>\<open>Monster.move\<close>.  The destination is computed from the heading \<^verbatim>\<open>_dx, _dy\<close>, the
  relocation by \<^verbatim>\<open>super().move\<close> from the parameters \<^verbatim>\<open>dx, dy\<close>.  The \<^verbatim>\<open>else\<close> that
  relocates belongs to the second \<^verbatim>\<open>if\<close> only.  Falling off the end returns \<^verbatim>\<open>None\<close>.\<close>

definition Monster_move ::
  "stage \<Rightarrow> nat \<Rightarrow> nat \<Rightarrow> int \<Rightarrow> int \<Rightarrow> error + (stage \<times> bool option)" where
  "Monster_move s self other dx dy =
     (if other \<noteq> self then Inr (s, Some False)
      else
        let new_x = a_x (heap s self) + a_dx (heap s self);
            new_y = a_y (heap s self) + a_dy (heap s self);
            s0 = fst (Monster_is_dead s self)
        in if inside_sticky (heap s0 self) then Inr (s0, None)
           else
             let actor = get_actor s0 new_x new_y in
             (case (case actor of
                      None \<Rightarrow> Inr s0
                    | Some p \<Rightarrow>
                        if cls (heap s0 p) = KeyboardPlayer then
                          (case remove_actor s0 p of
                             Inl e \<Rightarrow> Inl e
                           | Inr s1 \<Rightarrow>
                               Inr (s1\<lparr>heap := (heap s1)(p := (heap s1 p)\<lparr>a_is_dead := True\<rparr>)\<rparr>))
                        else Inr s0) of
                Inl e \<Rightarrow> Inl e
              | Inr s1 \<Rightarrow>
                  let s2 = (if \<not> is_in_bounds_x s1 new_x \<or> actor \<noteq> None
                            then s1\<lparr>heap := (heap s1)(self := (heap s1 self)\<lparr>a_dx := - a_dx (heap s1 self)\<rparr>)\<rparr>
                            else s1)
                  in if \<not> is_in_bounds_y s2 new_y \<or> actor \<noteq> None
                     then Inr (s2\<lparr>heap := (heap s2)(self := (heap s2 self)\<lparr>a_dy := - a_dy (heap s2 self)\<rparr>)\<rparr>,
                               Some False)
                     else Inr (Actor_move s2 self other dx dy, Some True)))"

text \<open>\<^verbatim>\<open>Monster.step\<close> returns \<^verbatim>\<open>None\<close> when it is being delayed and \<^verbatim>\<open>True\<close> after it has
  called \<^verbatim>\<open>move\<close>.  There is no \<^verbatim>\<open>return\<close> after \<^verbatim>\<open>remove_actor\<close>.\<close>

definition Monster_step :: "stage \<Rightarrow> nat \<Rightarrow> error + (stage \<times> bool option)" where
  "Monster_step s self =
     (let (s0, dead) = Monster_is_dead s self in
      case (if dead then remove_actor s0 self else Inr s0) of
        Inl e \<Rightarrow> Inl e
      | Inr s1 \<Rightarrow>
          (case delay s1 self of
             Inl e \<Rightarrow> Inl e
           | Inr (s2, d) \<Rightarrow>
               if \<not> d \<and> \<not> inside_sticky (heap s2 self) then Inr (s2, None)
               else
                 (case Monster_move s2 self self (a_dx (heap s2 self)) (a_dy (heap s2 self)) of
                    Inl e \<Rightarrow> Inl e
                  | Inr (s3, r) \<Rightarrow> Inr (s3, Some True))))"

section \<open>Stage.step\<close>

text \<open>The method \<^verbatim>\<open>step\<close> of an actor, by its class; \<^verbatim>\<open>Actor.step\<close> does nothing.\<close>

definition step :: "stage \<Rightarrow> nat \<Rightarrow> error + stage" where
  "step s a =
     (if cls (heap s a) = KeyboardPlayer then KeyboardPlayer_step s a
      else if cls (heap s a) = Monster then
        (case Monster_step s a of Inl e \<Rightarrow> Inl e | Inr (s1, r) \<Rightarrow> Inr s1)
      else Inr s)"

section \<open>What a push and a step leave unchanged\<close>

text \<open>A push through Box and sticky objects changes positions of objects that are not
  Monsters and sets \<^verbatim>\<open>inside_sticky\<close>; nothing else.\<close>

definition pushed :: "stage \<Rightarrow> stage \<Rightarrow> bool" where
  "pushed s s' \<longleftrightarrow>
     actors s' = actors s \<and> player s' = player s \<and> width s' = width s \<and>
     height s' = height s \<and> Actor_is_dead s' = Actor_is_dead s \<and>
     move_depth_limit s' = move_depth_limit s \<and>
     (\<forall>a. cls (heap s' a) = cls (heap s a) \<and> a_delay (heap s' a) = a_delay (heap s a) \<and>
          a_delay_count (heap s' a) = a_delay_count (heap s a) \<and>
          a_last_event (heap s' a) = a_last_event (heap s a) \<and>
          a_dx (heap s' a) = a_dx (heap s a) \<and> a_dy (heap s' a) = a_dy (heap s a) \<and>
          a_is_dead (heap s' a) = a_is_dead (heap s a) \<and>
          (inside_sticky (heap s a) \<longrightarrow> inside_sticky (heap s' a)) \<and>
          (cls (heap s a) = Monster \<longrightarrow>
             a_x (heap s' a) = a_x (heap s a) \<and> a_y (heap s' a) = a_y (heap s a)))"

lemma pushed_refl: "pushed s s"
  by (simp add: pushed_def)

lemma pushed_trans: "pushed s s1 \<Longrightarrow> pushed s1 s2 \<Longrightarrow> pushed s s2"
  by (simp add: pushed_def)

lemma pushed_Actor_move:
  "cls (heap s self) \<noteq> Monster \<Longrightarrow> pushed s (Actor_move s self other dx dy)"
  by (simp add: pushed_def Actor_move_def set_position_def)

lemma pushed_ensnare:
  "pushed s (s\<lparr>heap := (heap s)(m := (heap s m)\<lparr>inside_sticky := True\<rparr>)\<rparr>)"
  by (simp add: pushed_def)

lemma pushed_cls: "pushed s s' \<Longrightarrow> cls (heap s' a) = cls (heap s a)"
  by (simp add: pushed_def)

lemma Box_sticky_pushed_at:
  "cls (heap s self) \<noteq> Monster \<Longrightarrow>
   (Box_move_at n s self other dx dy = Inr (s', r) \<longrightarrow> pushed s s') \<and>
   (sticky_move_at n s self other dx dy = Inr (s', r) \<longrightarrow> pushed s s')"
proof (induction n arbitrary: s self other dx dy s' r)
  case 0
  show ?case by (simp add: Box_move_at.simps sticky_move_at.simps)
next
  case (Suc n)
  let ?nx = "a_x (heap s self) + dx" and ?ny = "a_y (heap s self) + dy"
  note nm = \<open>cls (heap s self) \<noteq> Monster\<close>
  have box: "pushed s s'" if eq: "Box_move_at (Suc n) s self other dx dy = Inr (s', r)"
    for s' r
  proof (cases "is_in_bounds s ?nx ?ny \<and> get_actor s ?nx ?ny = None")
    case True
    with eq have "s' = Actor_move s self other dx dy"
      by (simp add: Box_move_at.simps [of "Suc n" s self])
    then show ?thesis using nm by (simp add: pushed_Actor_move)
  next
    case free: False
    show ?thesis
    proof (cases "get_actor s ?nx ?ny")
      case None
      with eq free have "s' = s" by (simp add: Box_move_at.simps [of "Suc n" s self])
      then show ?thesis by (simp add: pushed_refl)
    next
      case (Some b)
      show ?thesis
      proof (cases "isinstance_Box (cls (heap s b))")
        case False
        with eq free Some have "s' = s"
          by (simp add: Box_move_at.simps [of "Suc n" s self])
        then show ?thesis by (simp add: pushed_refl)
      next
        case True
        then have bm: "cls (heap s b) \<noteq> Monster" by (auto simp: isinstance_Box_def)
        obtain s1 r1 where
          call: "(if cls (heap s b) = sticky then sticky_move_at n s b self dx dy
                  else Box_move_at n s b self dx dy) = Inr (s1, r1)"
          and res: "s' = s1 \<or> s' = Actor_move s1 self other dx dy"
          using eq free Some True
          by (auto simp add: Box_move_at.simps [of "Suc n" s self] split: if_splits sum.splits)
        have p1: "pushed s s1"
          using call Suc.IH [OF bm, of self dx dy s1 r1]
          by (cases "cls (heap s b) = sticky") simp_all
        from res show ?thesis
        proof
          assume "s' = s1" with p1 show ?thesis by simp
        next
          assume s': "s' = Actor_move s1 self other dx dy"
          have "cls (heap s1 self) \<noteq> Monster" using nm pushed_cls [OF p1] by simp
          then have "pushed s1 s'" unfolding s' by (rule pushed_Actor_move)
          with p1 show ?thesis by (rule pushed_trans)
        qed
      qed
    qed
  qed
  have stk: "pushed s s'" if eq: "sticky_move_at (Suc n) s self other dx dy = Inr (s', r)"
  proof (cases "case get_actor s ?nx ?ny of None \<Rightarrow> False | Some m \<Rightarrow> cls (heap s m) = Monster")
    case True
    then obtain m where "s' = (Actor_move s self other dx dy)\<lparr>heap :=
        (heap (Actor_move s self other dx dy))(m :=
          (heap (Actor_move s self other dx dy) m)\<lparr>inside_sticky := True\<rparr>)\<rparr>"
      using eq
      by (auto simp add: sticky_move_at.simps [of "Suc n" s self] Let_def split: option.splits)
    then show ?thesis
      using pushed_trans [OF pushed_Actor_move [OF nm] pushed_ensnare] by simp
  next
    case False
    then obtain r1 where "Box_move_at n s self other dx dy = Inr (s', r1)"
      using eq
      by (auto simp add: sticky_move_at.simps [of "Suc n" s self] Let_def split: sum.splits)
    with Suc.IH [OF nm, of other dx dy s' r1] show ?thesis by simp
  qed
  from box [of s' r] stk show ?case by blast
qed

lemma Box_sticky_pushed:
  shows "cls (heap s self) \<noteq> Monster \<Longrightarrow> Box_move s self other dx dy = Inr (s', r) \<Longrightarrow> pushed s s'"
    and "cls (heap s self) \<noteq> Monster \<Longrightarrow> sticky_move s self other dx dy = Inr (s', r) \<Longrightarrow> pushed s s'"
  using Box_sticky_pushed_at [of s self "move_depth_limit s" other dx dy s' r]
  by (simp_all add: Box_move_def sticky_move_def)

text \<open>A step of any actor never adds to the list of actors, never changes the class or
  the delay of an object, never assigns the instance attribute \<^verbatim>\<open>is_dead\<close> on a Monster,
  and never moves a Monster whose \<^verbatim>\<open>inside_sticky\<close> is set, nor clears that flag.\<close>

definition kept :: "stage \<Rightarrow> stage \<Rightarrow> bool" where
  "kept s s' \<longleftrightarrow>
     length (actors s') \<le> length (actors s) \<and> set (actors s') \<subseteq> set (actors s) \<and>
     width s' = width s \<and> height s' = height s \<and> move_depth_limit s' = move_depth_limit s \<and>
     (\<forall>a. cls (heap s' a) = cls (heap s a) \<and> a_delay (heap s' a) = a_delay (heap s a) \<and>
          (cls (heap s a) = Monster \<longrightarrow> a_is_dead (heap s' a) = a_is_dead (heap s a)) \<and>
          (cls (heap s a) = Monster \<and> inside_sticky (heap s a) \<longrightarrow>
             inside_sticky (heap s' a) \<and>
             a_x (heap s' a) = a_x (heap s a) \<and> a_y (heap s' a) = a_y (heap s a)))"

lemma kept_refl: "kept s s"
  by (simp add: kept_def)

lemma kept_trans: "kept s s1 \<Longrightarrow> kept s1 s2 \<Longrightarrow> kept s s2"
  unfolding kept_def by (intro conjI; (elim conjE)?; (force | simp)) 

lemma pushed_kept: "pushed s s' \<Longrightarrow> kept s s'"
  by (simp add: pushed_def kept_def)

lemma kept_update:
  "cls v = cls (heap s a) \<Longrightarrow> a_delay v = a_delay (heap s a) \<Longrightarrow>
   (cls (heap s a) = Monster \<Longrightarrow> a_is_dead v = a_is_dead (heap s a)) \<Longrightarrow>
   (cls (heap s a) = Monster \<Longrightarrow> inside_sticky (heap s a) \<Longrightarrow>
      inside_sticky v \<and> a_x v = a_x (heap s a) \<and> a_y v = a_y (heap s a)) \<Longrightarrow>
   kept s (s\<lparr>heap := (heap s)(a := v)\<rparr>)"
  by (simp add: kept_def)

lemma kept_remove_actor: "remove_actor s a = Inr s' \<Longrightarrow> kept s s'"
  using set_remove1_subset [of a "actors s"]
  by (auto simp: remove_actor_def kept_def length_remove1 split: if_splits)

lemma kept_Monster_is_dead: "kept s (fst (Monster_is_dead s a))"
  by (simp add: Monster_is_dead_def Let_def kept_def)

lemma kept_delay: "delay s a = Inr (s', d) \<Longrightarrow> kept s s'"
  by (auto simp: delay_def Let_def split: if_splits intro!: kept_update)

lemma kept_Actor_move:
  "\<not> (cls (heap s self) = Monster \<and> inside_sticky (heap s self)) \<Longrightarrow>
   kept s (Actor_move s self other dx dy)"
  unfolding Actor_move_def set_position_def by (rule kept_update) auto

lemma in_set_remove1D: "x \<in> set (remove1 a xs) \<Longrightarrow> x \<in> set xs"
  using set_remove1_subset [of a xs] by blast

lemma kept_Monster_move:
  assumes "Monster_move s self other dx dy = Inr (s', r)"
  shows "kept s s'"
proof (cases "other \<noteq> self")
  case True
  with assms show ?thesis by (simp add: Monster_move_def kept_refl)
next
  case same: False
  define s0 where "s0 = fst (Monster_is_dead s self)"
  have k0: "kept s s0" unfolding s0_def by (rule kept_Monster_is_dead)
  have h0: "heap s0 = heap s"
    unfolding s0_def by (simp add: Monster_is_dead_def Let_def)
  show ?thesis
  proof (cases "inside_sticky (heap s0 self)")
    case True
    with assms same h0 have "s' = s0"
      by (simp add: Monster_move_def Let_def s0_def)
    with k0 show ?thesis by simp
  next
    case free: False
    define new_x where "new_x = a_x (heap s self) + a_dx (heap s self)"
    define new_y where "new_y = a_y (heap s self) + a_dy (heap s self)"
    define actor where "actor = get_actor s0 new_x new_y"
    define kill where "kill = (case actor of
                      None \<Rightarrow> Inr s0
                    | Some p \<Rightarrow>
                        if cls (heap s0 p) = KeyboardPlayer then
                          (case remove_actor s0 p of
                             Inl e \<Rightarrow> Inl e
                           | Inr s1 \<Rightarrow>
                               Inr (s1\<lparr>heap := (heap s1)(p := (heap s1 p)\<lparr>a_is_dead := True\<rparr>)\<rparr>))
                        else Inr s0)"
    from assms same free h0 obtain s1 where kill1: "kill = Inr s1"
      by (cases kill) (simp_all add: Monster_move_def Let_def s0_def [symmetric]
            new_x_def [symmetric] new_y_def [symmetric] actor_def [symmetric] kill_def [symmetric])
    have k1: "kept s0 s1" and f1: "\<not> inside_sticky (heap s1 self)"
      using kill1 free unfolding kill_def
      by (auto simp: kept_def remove_actor_def length_remove1
            split: option.splits if_splits sum.splits dest: in_set_remove1D)
    define s2 where "s2 = (if \<not> is_in_bounds_x s1 new_x \<or> actor \<noteq> None
                            then s1\<lparr>heap := (heap s1)(self := (heap s1 self)\<lparr>a_dx := - a_dx (heap s1 self)\<rparr>)\<rparr>
                            else s1)"
    have k2: "kept s1 s2" and f2: "\<not> inside_sticky (heap s2 self)"
      using f1 unfolding s2_def by (auto simp: kept_refl intro!: kept_update)
    have "s' = s2\<lparr>heap := (heap s2)(self := (heap s2 self)\<lparr>a_dy := - a_dy (heap s2 self)\<rparr>)\<rparr>
          \<or> s' = Actor_move s2 self other dx dy"
      using assms same free h0 kill1
      by (auto simp add: Monster_move_def Let_def s0_def [symmetric]
            new_x_def [symmetric] new_y_def [symmetric] actor_def [symmetric] kill_def [symmetric]
            s2_def is_in_bounds_x_def is_in_bounds_y_def split: if_splits)
    then have "kept s2 s'"
      using f2 by (auto intro!: kept_update kept_Actor_move)
    with k0 k1 k2 show ?thesis by (blast intro: kept_trans)
  qed
qed

lemma move_of_Box_instance_pushed:
  "isinstance_Box (cls (heap s b)) \<Longrightarrow> move_of_Box_instance s b other dx dy = Inr (s', r) \<Longrightarrow>
   pushed s s'"
  unfolding move_of_Box_instance_def isinstance_Box_def
  by (auto split: if_splits dest: Box_sticky_pushed [rotated])

lemma kept_KeyboardPlayer_move:
  assumes "KeyboardPlayer_move s self other dx dy = Inr (s', r)"
    and nm: "cls (heap s self) \<noteq> Monster"
  shows "kept s s'"
proof -
  let ?nx = "a_x (heap s self) + dx" and ?ny = "a_y (heap s self) + dy"
  note eq = assms(1)
  show ?thesis
  proof (cases "is_in_bounds s ?nx ?ny \<and> get_actor s ?nx ?ny = None")
    case True
    with eq have "s' = Actor_move s self other dx dy"
      by (simp add: KeyboardPlayer_move_def)
    then show ?thesis using nm by (simp add: kept_Actor_move)
  next
    case free: False
    show ?thesis
    proof (cases "get_actor s ?nx ?ny")
      case None
      with eq free have "s' = s" by (simp add: KeyboardPlayer_move_def)
      then show ?thesis by (simp add: kept_refl)
    next
      case (Some b)
      show ?thesis
      proof (cases "cls (heap s b) = Monster")
        case True
        with eq free Some
        have dead: "remove_actor (s\<lparr>heap := (heap s)(self := (heap s self)\<lparr>a_is_dead := True\<rparr>)\<rparr>) self = Inr s'"
          by (simp add: KeyboardPlayer_move_def split: sum.splits)
        have "kept s (s\<lparr>heap := (heap s)(self := (heap s self)\<lparr>a_is_dead := True\<rparr>)\<rparr>)"
          using nm by (intro kept_update) simp_all
        then show ?thesis using kept_remove_actor [OF dead] by (rule kept_trans)
      next
        case notm: False
        show ?thesis
        proof (cases "isinstance_Box (cls (heap s b))")
          case False
          with eq free Some notm have "s' = s" by (simp add: KeyboardPlayer_move_def)
          then show ?thesis by (simp add: kept_refl)
        next
          case True
          with eq free Some notm obtain s1 r1 where
            call: "move_of_Box_instance s b self dx dy = Inr (s1, r1)"
            and res: "s' = s1 \<or> s' = Actor_move s1 self other dx dy"
            by (auto simp add: KeyboardPlayer_move_def split: if_splits sum.splits)
          have p1: "pushed s s1" using True call by (rule move_of_Box_instance_pushed)
          have "cls (heap s1 self) \<noteq> Monster" using nm pushed_cls [OF p1] by simp
          with res have "kept s1 s'" by (auto simp: kept_refl kept_Actor_move)
          with pushed_kept [OF p1] show ?thesis by (rule kept_trans)
        qed
      qed
    qed
  qed
qed

lemma kept_KeyboardPlayer_step:
  assumes "KeyboardPlayer_step s self = Inr s'" and "cls (heap s self) \<noteq> Monster"
  shows "kept s s'"
proof (cases "a_last_event (heap s self)")
  case None
  with assms show ?thesis by (simp add: KeyboardPlayer_step_def kept_refl)
next
  case (Some event)
  with assms obtain s1 where
    s1: "s1 = s \<or> (\<exists>dx dy r. KeyboardPlayer_move s self self dx dy = Inr (s1, r))"
    and s': "s' = s1\<lparr>heap := (heap s1)(self := (heap s1 self)\<lparr>a_last_event := None\<rparr>)\<rparr>"
    by (auto simp: KeyboardPlayer_step_def split: option.splits sum.splits prod.splits)
  from s1 have "kept s s1"
    using assms(2) by (auto simp: kept_refl dest: kept_KeyboardPlayer_move)
  moreover have "kept s1 s'" unfolding s' by (rule kept_update) auto
  ultimately show ?thesis by (rule kept_trans)
qed

lemma kept_Monster_step:
  assumes "Monster_step s self = Inr (s', r)"
  shows "kept s s'"
proof -
  obtain s0 dead where d: "Monster_is_dead s self = (s0, dead)" by (cases "Monster_is_dead s self")
  then have k0: "kept s s0" using kept_Monster_is_dead [of s self] by simp
  from assms d obtain s1 s2 dl where
    r1: "(if dead then remove_actor s0 self else Inr s0) = Inr s1"
    and r2: "delay s1 self = Inr (s2, dl)"
    and r3: "s' = s2 \<or> (\<exists>r3. Monster_move s2 self self (a_dx (heap s2 self)) (a_dy (heap s2 self)) = Inr (s', r3))"
    by (auto simp: Monster_step_def split: sum.splits if_splits)
  from r1 have k1: "kept s0 s1" by (auto simp: kept_refl split: if_splits dest: kept_remove_actor)
  from r2 have k2: "kept s1 s2" by (rule kept_delay)
  from r3 have k3: "kept s2 s'" by (auto simp: kept_refl dest: kept_Monster_move)
  from k0 k1 k2 k3 show ?thesis by (blast intro: kept_trans)
qed

lemma kept_step: "step s a = Inr s' \<Longrightarrow> kept s s'"
  by (auto simp: step_def kept_refl split: if_splits sum.splits
      dest: kept_Monster_step kept_KeyboardPlayer_step)

lemma step_length: "step s a = Inr s' \<Longrightarrow> length (actors s') \<le> length (actors s)"
  by (drule kept_step) (simp add: kept_def)

section \<open>The loop of Stage.step\<close>

text \<open>
  \<^verbatim>\<open>for a in self._actors: a.step()\<close> iterates over the list itself: the iterator keeps an
  index, and each round compares it with the current length of the list and reads the
  current element at that index.  \<open>step_from\<close> is the loop from index \<open>i\<close> on; it returns
  the actors whose \<^verbatim>\<open>step\<close> was called, in order, and the final stage.
\<close>

function step_from :: "nat \<Rightarrow> stage \<Rightarrow> error + (nat list \<times> stage)" where
  "step_from i s =
     (if i < length (actors s) then
        (case step s (actors s ! i) of
           Inl e \<Rightarrow> Inl e
         | Inr s1 \<Rightarrow>
             (case step_from (i + 1) s1 of
                Inl e \<Rightarrow> Inl e
              | Inr (called, s2) \<Rightarrow> Inr (actors s ! i # called, s2)))
      else Inr ([], s))"
  by pat_completeness auto
termination
  by (relation "measure (\<lambda>(i, s). length (actors s) - i)") (auto dest: step_length)

declare step_from.simps [simp del]

definition Stage_step :: "stage \<Rightarrow> error + stage" where
  "Stage_step s = (case step_from 0 s of Inl e \<Rightarrow> Inl e | Inr (called, s') \<Rightarrow> Inr s')"

text \<open>\<^verbatim>\<open>Stage.player_event\<close>: \<^verbatim>\<open>KeyboardPlayer.handle_event\<close> records the event,
  \<^verbatim>\<open>Player.handle_event\<close> does nothing, and the other classes have no such method.\<close>

definition player_event :: "stage \<Rightarrow> int \<Rightarrow> error + stage" where
  "player_event s event =
     (case player s of
        None \<Rightarrow> Inl AttributeError
      | Some p \<Rightarrow>
          if cls (heap s p) = KeyboardPlayer then Inr (handle_event s p event)
          else if cls (heap s p) = Player then Inr s
          else Inl AttributeError)"

section \<open>The main loop of wwgame.py\<close>

text \<open>
  Each round of the main loop sends the key codes of the pending KEYDOWN events to the
  player, in order, and then calls \<^verbatim>\<open>Stage.step\<close>.  \<open>game_loop s inputs\<close> runs one round
  for each element of \<open>inputs\<close>, the key codes of that round.  Drawing and the QUIT event
  are left out.
\<close>

fun player_events :: "stage \<Rightarrow> int list \<Rightarrow> error + stage" where
  "player_events s [] = Inr s"
| "player_events s (key # keys) =
     (case player_event s key of Inl e \<Rightarrow> Inl e | Inr s1 \<Rightarrow> player_events s1 keys)"

fun game_loop :: "stage \<Rightarrow> int list list \<Rightarrow> error + stage" where
  "game_loop s [] = Inr s"
| "game_loop s (keys # rest) =
     (case player_events s keys of
        Inl e \<Rightarrow> Inl e
      | Inr s1 \<Rightarrow> (case Stage_step s1 of Inl e \<Rightarrow> Inl e | Inr s2 \<Rightarrow> game_loop s2 rest))"

lemma kept_step_from: "step_from i s = Inr (called, s') \<Longrightarrow> kept s s'"
proof (induction i s arbitrary: called s' rule: step_from.induct)
  case (1 i s)
  show ?case
  proof (cases "i < length (actors s)")
    case False
    with "1.prems" show ?thesis by (simp add: step_from.simps [of i s] kept_refl)
  next
    case True
    with "1.prems" obtain s1 called1 where
      a: "step s (actors s ! i) = Inr s1" and b: "step_from (i + 1) s1 = Inr (called1, s')"
      by (auto simp: step_from.simps [of i s] split: sum.splits)
    from kept_step [OF a] "1.IH" [OF True a b] show ?thesis by (rule kept_trans)
  qed
qed

lemma kept_Stage_step: "Stage_step s = Inr s' \<Longrightarrow> kept s s'"
  by (auto simp: Stage_step_def split: sum.splits dest: kept_step_from)

lemma kept_player_event: "player_event s key = Inr s' \<Longrightarrow> kept s s'"
  by (auto simp: player_event_def handle_event_def kept_refl split: option.splits if_splits
      intro!: kept_update)

lemma kept_player_events: "player_events s keys = Inr s' \<Longrightarrow> kept s s'"
proof (induction keys arbitrary: s)
  case Nil
  then show ?case by (simp add: kept_refl)
next
  case (Cons key keys)
  then show ?case
    by (auto split: sum.splits dest: kept_player_event intro: kept_trans)
qed

lemma kept_game_loop: "game_loop s inputs = Inr s' \<Longrightarrow> kept s s'"
proof (induction inputs arbitrary: s)
  case Nil
  then show ?case by (simp add: kept_refl)
next
  case (Cons keys rest)
  from Cons.prems obtain s1 s2 where
    a: "player_events s keys = Inr s1" and b: "Stage_step s1 = Inr s2"
    and c: "game_loop s2 rest = Inr s'"
    by (auto split: sum.splits)
  from kept_player_events [OF a] kept_Stage_step [OF b] Cons.IH [OF c]
  show ?case by (blast intro: kept_trans)
qed

section \<open>Looking up is_dead\<close>

text \<open>
  What \<^verbatim>\<open>a.is_dead\<close> evaluates to: the instance attribute if it has been assigned, else
  the attribute of the class, where \<open>Monster\<close> defines its own method and every other class
  inherits \<^verbatim>\<open>Actor.is_dead\<close>, which is the method of the source until it is rebound.
\<close>

datatype attribute = Actor_is_dead_method | Monster_is_dead_method | True_value

definition getattr_is_dead :: "stage \<Rightarrow> nat \<Rightarrow> attribute" where
  "getattr_is_dead s a =
     (if a_is_dead (heap s a) then True_value
      else if cls (heap s a) = Monster then Monster_is_dead_method
      else if Actor_is_dead s then True_value
      else Actor_is_dead_method)"

text \<open>The eight neighbouring cells, as offsets, and the condition that all of them are
  occupied.\<close>

definition neighbours :: "(int \<times> int) list" where
  "neighbours = [(1, 0), (- 1, 0), (0, 1), (0, - 1), (1, 1), (- 1, - 1), (1, - 1), (- 1, 1)]"

definition surrounded :: "stage \<Rightarrow> nat \<Rightarrow> bool" where
  "surrounded s self =
     list_all (\<lambda>(ox, oy). get_actor s (a_x (heap s self) + ox) (a_y (heap s self) + oy) \<noteq> None)
       neighbours"

lemma Monster_is_dead_surrounded:
  "Monster_is_dead s self = (if surrounded s self then (s\<lparr>Actor_is_dead := True\<rparr>, True) else (s, False))"
  by (simp add: Monster_is_dead_def surrounded_def neighbours_def get_position_def Let_def)

lemma Monster_is_dead_heap [simp]: "heap (fst (Monster_is_dead s a)) = heap s"
  and Monster_is_dead_actors [simp]: "actors (fst (Monster_is_dead s a)) = actors s"
  by (simp_all add: Monster_is_dead_surrounded)

section \<open>Constructing stages\<close>

text \<open>
  The constructors: \<^verbatim>\<open>Actor.__init__\<close> sets the position, the delay and a delay count of
  0; \<^verbatim>\<open>KeyboardPlayer.__init__\<close> sets \<^verbatim>\<open>_last_event = None\<close>; \<^verbatim>\<open>Monster.__init__\<close> sets the
  heading (1, 1) and \<^verbatim>\<open>inside_sticky = False\<close>.  \<open>place s a obj\<close> is
  \<^verbatim>\<open>add_actor\<close> of a newly constructed object with identity \<open>a\<close>.
\<close>

definition new_actor :: "kind \<Rightarrow> int \<Rightarrow> int \<Rightarrow> int \<Rightarrow> actor" where
  "new_actor k x y d =
     \<lparr>cls = k, a_x = x, a_y = y, a_delay = d, a_delay_count = 0, a_last_event = None,
      a_dx = (if k = Monster then 1 else 0), a_dy = (if k = Monster then 1 else 0),
      inside_sticky = False, a_is_dead = False\<rparr>"

text \<open>
  The recursion limit of CPython is 1000 frames unless the program changes it, which
  wwgame.py does not.  When \<^verbatim>\<open>KeyboardPlayer.move\<close> asks a Box to move, four frames are in
  use (the module, \<^verbatim>\<open>Stage.step\<close>, \<^verbatim>\<open>KeyboardPlayer.step\<close>, \<^verbatim>\<open>KeyboardPlayer.move\<close>), and the
  innermost \<^verbatim>\<open>Box.move\<close> needs two more for \<^verbatim>\<open>is_in_bounds\<close> and \<^verbatim>\<open>is_in_bounds_x\<close>.  That
  leaves some 993 nested calls of \<^verbatim>\<open>move\<close>; the number differs by a few between versions of
  the interpreter, and the general statements below hold for any value of it.
\<close>

definition default_move_depth_limit :: nat where
  "default_move_depth_limit = 993"

definition new_Stage :: "int \<Rightarrow> int \<Rightarrow> stage" where
  "new_Stage w h =
     \<lparr>actors = [], player = None, width = w, height = h,
      heap = (\<lambda>a. new_actor Actor 0 0 5), Actor_is_dead = False,
      move_depth_limit = default_move_depth_limit\<rparr>"

definition place :: "stage \<Rightarrow> nat \<Rightarrow> actor \<Rightarrow> stage" where
  "place s a obj = add_actor (s\<lparr>heap := (heap s)(a := obj)\<rparr>) a"

definition place_player :: "stage \<Rightarrow> nat \<Rightarrow> actor \<Rightarrow> stage" where
  "place_player s a obj = set_player (s\<lparr>heap := (heap s)(a := obj)\<rparr>) a"

lemmas run_simps = new_actor_def new_Stage_def place_def place_player_def set_player_def add_actor_def Monster_move_def
  Monster_is_dead_def get_actor_def get_position_def is_in_bounds_x_def is_in_bounds_y_def
  is_in_bounds_def Actor_move_def set_position_def Let_def remove_actor_def delay_def
  Monster_step_def step_def Stage_step_def step_from.simps KeyboardPlayer_step_def
  KeyboardPlayer_move_def move_of_Box_instance_def Box_move_def sticky_move_def
  Box_move_at.simps sticky_move_at.simps default_move_depth_limit_def
  isinstance_Box_def key_direction_def K_a_def K_c_def K_d_def K_e_def K_q_def K_s_def
  K_w_def K_z_def handle_event_def fun_eq_iff

section \<open>A Monster at the east edge\<close>

text \<open>A 20 by 20 stage whose only actor is a Monster in the corner (19, 0), with delay 1,
  so that it moves on every tick, and that stage one tick later; and a stage with a
  Monster at (19, 5) with delay 5.\<close>

definition corner_stage :: stage where
  "corner_stage = place (new_Stage 20 20) 0 (new_actor Monster 19 0 1)"

definition corner_stage_after :: stage where
  "corner_stage_after = place (new_Stage 20 20) 0 ((new_actor Monster 20 1 1)\<lparr>a_dx := - 1\<rparr>)"

definition east_edge_stage :: stage where
  "east_edge_stage = place (new_Stage 20 20) 0 (new_actor Monster 19 5 5)"

text \<open>
  Claim C1: after any call of \<^verbatim>\<open>Stage.step\<close> every live entity's stored position is
  within the bounds of the grid.

  The code does not keep this.  In \<open>corner_stage\<close> every actor is in bounds; one tick later
  the Monster is still on the stage and stands at (20, 1), and 20 is not a column of the
  grid.  The \<^verbatim>\<open>else\<close> of \<^verbatim>\<open>Monster.move\<close> that relocates the Monster belongs to the test of
  the y-axis only, so a destination that is off the grid on the x-axis alone is moved to.
\<close>

theorem C1_Monster_leaves_the_grid:
  "list_all (\<lambda>a. is_in_bounds corner_stage (a_x (heap corner_stage a)) (a_y (heap corner_stage a)))
     (actors corner_stage) \<and>
   Stage_step corner_stage = Inr corner_stage_after \<and>
   actors corner_stage_after = [0] \<and> get_position corner_stage_after 0 = (20, 1) \<and>
   \<not> is_in_bounds corner_stage_after 20 1"
  by (simp add: corner_stage_def corner_stage_after_def run_simps)

text \<open>
  Claim C2: a Monster that is not ensnared and whose destination is out of bounds on the
  x-axis, in bounds on the y-axis and unoccupied reverses the x-component of its heading
  only, keeps the y-component, and does not change its position.

  The code reverses the x-component and keeps the y-component, but it also moves: the
  Monster at (19, 5) with heading (1, 1) ends at (20, 6) with heading (-1, 1), and
  \<^verbatim>\<open>move\<close> returns \<^verbatim>\<open>True\<close>, where its docstring promises \<^verbatim>\<open>False\<close> after a bounce.
\<close>

theorem C2_bounce_on_x_relocates:
  "get_position east_edge_stage 0 = (19, 5) \<and>
   a_dx (heap east_edge_stage 0) = 1 \<and> a_dy (heap east_edge_stage 0) = 1 \<and>
   \<not> inside_sticky (heap east_edge_stage 0) \<and>
   \<not> is_in_bounds_x east_edge_stage (19 + 1) \<and> is_in_bounds_y east_edge_stage (5 + 1) \<and>
   get_actor east_edge_stage (19 + 1) (5 + 1) = None \<and>
   Monster_move east_edge_stage 0 0 1 1 =
     Inr (place (new_Stage 20 20) 0 ((new_actor Monster 20 6 5)\<lparr>a_dx := - 1\<rparr>), Some True)"
  by (simp add: east_edge_stage_def run_simps)

theorem C2_bounce_on_x_relocates_witness:
  "Monster_move east_edge_stage 0 0 1 1 \<noteq> Inr (east_edge_stage, Some False) \<and>
   Monster_move east_edge_stage 0 0 1 1 \<noteq>
     Inr (place (new_Stage 20 20) 0 ((new_actor Monster 19 5 5)\<lparr>a_dx := - 1\<rparr>), Some False)"
  using C2_bounce_on_x_relocates by (simp add: east_edge_stage_def run_simps)

section \<open>Removal during the loop of Stage.step\<close>

text \<open>A KeyboardPlayer at (0, 0) that has received the key d, a Monster at (1, 0) and a
  Monster at (5, 5), both with delay 1, added in this order.\<close>

definition skip_stage :: stage where
  "skip_stage =
     handle_event
       (place (place (place_player (new_Stage 20 20) 0 (new_actor KeyboardPlayer 0 0 5))
          1 (new_actor Monster 1 0 1)) 2 (new_actor Monster 5 5 1))
       0 K_d"

text \<open>
  Claim C4: \<^verbatim>\<open>Stage.step\<close> calls the step hook of each entity that is live at the start
  exactly once, in insertion order; an entity removing itself during the pass never causes
  another entity to be skipped.

  The code iterates over the list it mutates.  The player steps first, walks into the
  Monster at (1, 0) and removes itself; the list is then [1, 2] and the loop goes on at
  index 1, which is Monster 2.  Monster 1, live before and after, is not stepped in this
  tick: the hooks called are those of 0 and 2, and Monster 1 has not moved.
\<close>

theorem C4_removal_skips_the_next_actor:
  "actors skip_stage = [0, 1, 2] \<and>
   step_from 0 skip_stage =
     Inr ([0, 2],
          place (place
            ((new_Stage 20 20)\<lparr>player := Some 0,
               heap := (heap (new_Stage 20 20))
                 (0 := (new_actor KeyboardPlayer 0 0 5)\<lparr>a_is_dead := True\<rparr>)\<rparr>)
            1 (new_actor Monster 1 0 1)) 2 (new_actor Monster 6 6 1))"
  by (simp add: skip_stage_def run_simps)

section \<open>A sticky pushed onto a Monster\<close>

text \<open>A sticky at (4, 5) and a Monster at (5, 5), with the player (actor 2) west of the
  sticky; in the first stage the Monster was added before the sticky, as wwgame.py does,
  in the second after it.\<close>

definition monster_first_stage :: stage where
  "monster_first_stage =
     place (place (place_player (new_Stage 20 20) 2 (new_actor KeyboardPlayer 3 5 5))
       0 (new_actor Monster 5 5 5)) 1 (new_actor sticky 4 5 5)"

definition sticky_first_stage :: stage where
  "sticky_first_stage =
     place (place (place_player (new_Stage 20 20) 2 (new_actor KeyboardPlayer 3 5 5))
       0 (new_actor sticky 4 5 5)) 1 (new_actor Monster 5 5 5)"

text \<open>
  Claim C5: when a sticky receives a move request whose destination cell is occupied by a
  live Monster, the sticky's position becomes that Monster's cell, that Monster's
  \<^verbatim>\<open>inside_sticky\<close> becomes true, and the call returns true.

  The sticky does move onto the Monster's cell.  But \<^verbatim>\<open>sticky.move\<close> has no return
  statement, so the call returns \<^verbatim>\<open>None\<close> in both stages; and it sets the flag on the
  first actor of the list found on the cell after the move, which in the second stage is
  the sticky itself: there the Monster's \<^verbatim>\<open>inside_sticky\<close> stays false.
\<close>

theorem C5_sticky_move_returns_None:
  "get_actor monster_first_stage 5 5 = Some 0 \<and>
   sticky_move monster_first_stage 1 2 1 0 =
     Inr (place (place (place_player (new_Stage 20 20) 2 (new_actor KeyboardPlayer 3 5 5))
            0 ((new_actor Monster 5 5 5)\<lparr>inside_sticky := True\<rparr>)) 1 (new_actor sticky 5 5 5),
          None) \<and>
   get_actor sticky_first_stage 5 5 = Some 1 \<and>
   sticky_move sticky_first_stage 0 2 1 0 =
     Inr (place (place (place_player (new_Stage 20 20) 2 (new_actor KeyboardPlayer 3 5 5))
            0 ((new_actor sticky 5 5 5)\<lparr>inside_sticky := True\<rparr>)) 1 (new_actor Monster 5 5 5),
          None)"
  by (simp add: monster_first_stage_def sticky_first_stage_def run_simps)

section \<open>A surrounded Monster\<close>

text \<open>A Monster at (5, 5) with delay 1 whose eight neighbouring cells are occupied: seven
  by Walls and (6, 6), the cell it is heading for, by the KeyboardPlayer.\<close>

definition surrounded_stage :: stage where
  "surrounded_stage =
     place (place (place (place_player (place (place (place (place (place (new_Stage 20 20)
       0 (new_actor Monster 5 5 1))
       1 (new_actor Wall 6 5 5))
       2 (new_actor Wall 4 5 5))
       3 (new_actor Wall 5 6 5))
       4 (new_actor Wall 5 4 5))
       5 (new_actor KeyboardPlayer 6 6 5))
       6 (new_actor Wall 4 4 5))
       7 (new_actor Wall 6 4 5))
       8 (new_actor Wall 4 6 5)"

text \<open>
  Claim C7: a Monster all of whose eight neighbouring cells are occupied is removed by the
  next \<^verbatim>\<open>Stage.step\<close> whatever its delay counter, and does nothing more in that tick (no
  delay update, no movement attempt); a Monster with an empty neighbouring cell is never
  removed by the death check.

  The Monster is removed, but \<^verbatim>\<open>Monster.step\<close> does not return after
  \<^verbatim>\<open>remove_actor\<close>: it goes on to \<^verbatim>\<open>delay\<close> and \<^verbatim>\<open>move\<close>.  In \<open>surrounded_stage\<close> the
  removed Monster then finds the player on its destination, removes the player from the
  stage, marks it dead and reverses both components of its own heading.
\<close>

theorem C7_removed_Monster_still_moves:
  "Monster_is_dead surrounded_stage 0 = (surrounded_stage\<lparr>Actor_is_dead := True\<rparr>, True) \<and>
   Stage_step surrounded_stage =
     Inr ((place (place (place (place (place (place (place
        ((new_Stage 20 20)\<lparr>player := Some 5, Actor_is_dead := True,
            heap := (heap (new_Stage 20 20))
              (0 := (new_actor Monster 5 5 1)\<lparr>a_dx := - 1, a_dy := - 1\<rparr>,
               5 := (new_actor KeyboardPlayer 6 6 5)\<lparr>a_is_dead := True\<rparr>)\<rparr>)
       1 (new_actor Wall 6 5 5))
       2 (new_actor Wall 4 5 5))
       3 (new_actor Wall 5 6 5))
       4 (new_actor Wall 5 4 5))
       6 (new_actor Wall 4 4 5))
       7 (new_actor Wall 6 4 5))
       8 (new_actor Wall 4 6 5)))"
  by (simp add: surrounded_stage_def run_simps)

section \<open>The class attribute Actor.is_dead\<close>

text \<open>
  Claim C10: whenever \<^verbatim>\<open>Monster.is_dead\<close> evaluates a Monster whose eight neighbouring
  cells are all occupied, it assigns \<^verbatim>\<open>True\<close> to the attribute \<^verbatim>\<open>is_dead\<close> of the class
  \<^verbatim>\<open>Actor\<close> itself, which replaces the base method for every entity; no per-instance state
  of any entity is modified by the check.

  For a surrounded Monster the check returns \<^verbatim>\<open>True\<close> and its only effect is the rebinding
  of the class attribute.  After it, \<^verbatim>\<open>is_dead\<close> of every object that is not a Monster
  evaluates to \<^verbatim>\<open>True\<close>; a Monster without the instance attribute still finds the method
  of its own class.  The store of attributes and the list of actors are unchanged.
\<close>

theorem C10_is_dead_rebinds_the_class_attribute:
  assumes "surrounded s self"
  shows "Monster_is_dead s self = (s\<lparr>Actor_is_dead := True\<rparr>, True) \<and>
         (\<forall>a. cls (heap s a) \<noteq> Monster \<longrightarrow>
              getattr_is_dead (fst (Monster_is_dead s self)) a = True_value) \<and>
         (\<forall>a. cls (heap s a) = Monster \<and> \<not> a_is_dead (heap s a) \<longrightarrow>
              getattr_is_dead (fst (Monster_is_dead s self)) a = Monster_is_dead_method) \<and>
         heap (fst (Monster_is_dead s self)) = heap s \<and>
         actors (fst (Monster_is_dead s self)) = actors s"
  using assms by (simp add: Monster_is_dead_surrounded getattr_is_dead_def)

theorem C10_is_dead_rebinds_the_class_attribute_witness:
  "surrounded surrounded_stage 0 \<and>
   Monster_is_dead surrounded_stage 0 = (surrounded_stage\<lparr>Actor_is_dead := True\<rparr>, True) \<and>
   getattr_is_dead (fst (Monster_is_dead surrounded_stage 0)) 1 = True_value \<and>
   getattr_is_dead surrounded_stage 1 = Actor_is_dead_method"
proof -
  have h: "surrounded surrounded_stage 0"
    by (simp add: surrounded_def neighbours_def surrounded_stage_def run_simps)
  have c: "cls (heap surrounded_stage 1) \<noteq> Monster"
    by (simp add: surrounded_stage_def run_simps)
  have b: "getattr_is_dead surrounded_stage 1 = Actor_is_dead_method"
    by (simp add: getattr_is_dead_def surrounded_stage_def run_simps)
  from C10_is_dead_rebinds_the_class_attribute [OF h] c b h show ?thesis by blast
qed

section \<open>The player walks into a Monster\<close>

text \<open>
  Claim C8: when the destination of a KeyboardPlayer's step is occupied by a Monster, the
  player's liveness becomes false, the player is removed from the stage so that later
  occupant lookups never return it, its position does not change, and no exception
  propagates.

  The player is taken to be on the stage, once (\<^verbatim>\<open>set_player\<close> adds it once; a second
  reference would survive \<^verbatim>\<open>list.remove\<close>).  Then the move returns \<^verbatim>\<open>True\<close> without
  raising, the step ends with \<^verbatim>\<open>is_dead\<close> set on the player, the player off the list and
  where it was, and neither then nor after any number of rounds of the main loop does
  \<^verbatim>\<open>get_actor\<close> return it.
\<close>

theorem C8_player_killed_by_Monster:
  assumes ev: "a_last_event (heap s p) = Some event"
    and dir: "key_direction event = Some (dx, dy)"
    and occ: "get_actor s (a_x (heap s p) + dx) (a_y (heap s p) + dy) = Some m"
    and mon: "cls (heap s m) = Monster"
    and live: "p \<in> set (actors s)"
    and once: "distinct (actors s)"
  shows "KeyboardPlayer_move s p p dx dy =
           Inr (s\<lparr>actors := remove1 p (actors s),
                  heap := (heap s)(p := (heap s p)\<lparr>a_is_dead := True\<rparr>)\<rparr>, Some True) \<and>
         (\<exists>s'. KeyboardPlayer_step s p = Inr s' \<and>
               a_is_dead (heap s' p) \<and> p \<notin> set (actors s') \<and>
               (\<forall>x y. get_actor s' x y \<noteq> Some p) \<and>
               get_position s' p = get_position s p \<and>
               (\<forall>inputs s'' x y. game_loop s' inputs = Inr s'' \<longrightarrow> get_actor s'' x y \<noteq> Some p))"
proof -
  let ?s1 = "s\<lparr>actors := remove1 p (actors s),
               heap := (heap s)(p := (heap s p)\<lparr>a_is_dead := True\<rparr>)\<rparr>"
  have mv: "KeyboardPlayer_move s p p dx dy = Inr (?s1, Some True)"
    using occ mon live by (simp add: KeyboardPlayer_move_def remove_actor_def)
  let ?s' = "?s1\<lparr>heap := (heap ?s1)(p := (heap ?s1 p)\<lparr>a_last_event := None\<rparr>)\<rparr>"
  have st: "KeyboardPlayer_step s p = Inr ?s'"
    using ev dir mv by (simp add: KeyboardPlayer_step_def)
  have gone: "p \<notin> set (actors ?s')" using once by simp
  have now: "\<forall>x y. get_actor ?s' x y \<noteq> Some p"
    using get_actor_not_member [OF gone] by blast
  have later: "\<forall>inputs s'' x y. game_loop ?s' inputs = Inr s'' \<longrightarrow> get_actor s'' x y \<noteq> Some p"
  proof (intro allI impI)
    fix inputs s'' x y assume "game_loop ?s' inputs = Inr s''"
    from kept_game_loop [OF this] have "set (actors s'') \<subseteq> set (actors ?s')"
      by (simp add: kept_def)
    with gone have "p \<notin> set (actors s'')" by blast
    then show "get_actor s'' x y \<noteq> Some p" by (rule get_actor_not_member)
  qed
  have here: "get_position ?s' p = get_position s p" and dead: "a_is_dead (heap ?s' p)"
    by (simp_all add: get_position_def)
  from st dead gone now here later
  have "\<exists>s'. KeyboardPlayer_step s p = Inr s' \<and>
               a_is_dead (heap s' p) \<and> p \<notin> set (actors s') \<and>
               (\<forall>x y. get_actor s' x y \<noteq> Some p) \<and>
               get_position s' p = get_position s p \<and>
               (\<forall>inputs s'' x y. game_loop s' inputs = Inr s'' \<longrightarrow> get_actor s'' x y \<noteq> Some p)"
    by (intro exI [of _ ?s'] conjI)
  with mv show ?thesis by (rule conjI)
qed

text \<open>A player at (0, 0) that has received the key d, and a Monster at (1, 0).\<close>

definition walk_stage :: stage where
  "walk_stage =
     handle_event
       (place (place_player (new_Stage 20 20) 0 (new_actor KeyboardPlayer 0 0 5))
          1 (new_actor Monster 1 0 5))
       0 K_d"

theorem C8_player_killed_by_Monster_witness:
  "a_last_event (heap walk_stage 0) = Some K_d \<and> key_direction K_d = Some (1, 0) \<and>
   get_actor walk_stage (a_x (heap walk_stage 0) + 1) (a_y (heap walk_stage 0) + 0) = Some 1 \<and>
   cls (heap walk_stage 1) = Monster \<and> 0 \<in> set (actors walk_stage) \<and>
   distinct (actors walk_stage) \<and>
   KeyboardPlayer_move walk_stage 0 0 1 0 =
     Inr (walk_stage\<lparr>actors := remove1 0 (actors walk_stage),
            heap := (heap walk_stage)(0 := (heap walk_stage 0)\<lparr>a_is_dead := True\<rparr>)\<rparr>, Some True) \<and>
   KeyboardPlayer_step walk_stage 0 =
     Inr (place ((new_Stage 20 20)\<lparr>player := Some 0,
            heap := (heap (new_Stage 20 20))
              (0 := (new_actor KeyboardPlayer 0 0 5)\<lparr>a_is_dead := True\<rparr>)\<rparr>)
          1 (new_actor Monster 1 0 5))"
proof -
  have h1: "a_last_event (heap walk_stage 0) = Some K_d"
    and h2: "key_direction K_d = Some (1, 0)"
    and h3: "get_actor walk_stage (a_x (heap walk_stage 0) + 1) (a_y (heap walk_stage 0) + 0) = Some 1"
    and h4: "cls (heap walk_stage 1) = Monster"
    and h5: "0 \<in> set (actors walk_stage)"
    and h6: "distinct (actors walk_stage)"
    by (simp_all add: walk_stage_def run_simps)
  have st: "KeyboardPlayer_step walk_stage 0 =
     Inr (place ((new_Stage 20 20)\<lparr>player := Some 0,
            heap := (heap (new_Stage 20 20))
              (0 := (new_actor KeyboardPlayer 0 0 5)\<lparr>a_is_dead := True\<rparr>)\<rparr>)
          1 (new_actor Monster 1 0 5))"
    by (simp add: walk_stage_def run_simps)
  from C8_player_killed_by_Monster [OF h1 h2 h3 h4 h5 h6] h1 h2 h3 h4 h5 h6 st
  show ?thesis by blast
qed

section \<open>An ensnared Monster\<close>

text \<open>
  Claim C6: a Monster whose \<^verbatim>\<open>inside_sticky\<close> is true attempts the move check on every
  step whatever the delay counter, and no step ever changes its position.

  \<^verbatim>\<open>Monster.step\<close> returns \<^verbatim>\<open>None\<close> when the Monster is being delayed and \<^verbatim>\<open>True\<close> after
  it has called \<^verbatim>\<open>move\<close>.  For an ensnared Monster that is on the stage and has a delay
  other than 0 (with delay 0 the remainder in \<^verbatim>\<open>delay\<close> raises), the step returns
  \<^verbatim>\<open>True\<close>, whatever the delay count, and leaves position and flag as they were.  And
  whatever the other actors and the player do, any number of rounds of the main loop
  leaves the position, the flag and the delay of an ensnared Monster as they were, so the
  same holds at every later step.
\<close>

theorem C6_ensnared_Monster_stays:
  assumes flag: "inside_sticky (heap s m)" and mon: "cls (heap s m) = Monster"
  shows "(a_delay (heap s m) \<noteq> 0 \<and> m \<in> set (actors s) \<longrightarrow>
            (\<exists>s'. Monster_step s m = Inr (s', Some True) \<and>
                  get_position s' m = get_position s m \<and> inside_sticky (heap s' m))) \<and>
         (\<forall>inputs s'. game_loop s inputs = Inr s' \<longrightarrow>
            get_position s' m = get_position s m \<and> inside_sticky (heap s' m) \<and>
            cls (heap s' m) = Monster \<and> a_delay (heap s' m) = a_delay (heap s m))"
proof (intro conjI impI allI)
  assume a: "a_delay (heap s m) \<noteq> 0 \<and> m \<in> set (actors s)"
  obtain s0 dead where d: "Monster_is_dead s m = (s0, dead)" by (cases "Monster_is_dead s m")
  then have s0: "heap s0 = heap s" "actors s0 = actors s"
    using Monster_is_dead_heap [of s m] Monster_is_dead_actors [of s m] by simp_all
  obtain s1 where r1: "(if dead then remove_actor s0 m else Inr s0) = Inr s1"
    and h1: "heap s1 = heap s"
    using a s0 by (cases dead) (simp_all add: remove_actor_def)
  obtain s2 dl where r2: "delay s1 m = Inr (s2, dl)"
    and h2: "heap s2 = (heap s)(m := (heap s m)\<lparr>a_delay_count :=
               (a_delay_count (heap s m) + 1) mod a_delay (heap s m)\<rparr>)"
    using a h1 by (simp add: delay_def Let_def)
  have f2: "inside_sticky (heap s2 m)" using h2 flag by simp
  have mv: "Monster_move s2 m m (a_dx (heap s2 m)) (a_dy (heap s2 m)) =
              Inr (fst (Monster_is_dead s2 m), None)"
    using f2 by (simp add: Monster_move_def Let_def)
  have "Monster_step s m = Inr (fst (Monster_is_dead s2 m), Some True)"
    using d r1 r2 f2 mv by (simp add: Monster_step_def)
  moreover have "get_position (fst (Monster_is_dead s2 m)) m = get_position s m"
    using h2 by (simp add: get_position_def)
  moreover have "inside_sticky (heap (fst (Monster_is_dead s2 m)) m)" using f2 by simp
  ultimately show "\<exists>s'. Monster_step s m = Inr (s', Some True) \<and>
      get_position s' m = get_position s m \<and> inside_sticky (heap s' m)" by blast
next
  fix inputs s' assume "game_loop s inputs = Inr s'"
  from kept_game_loop [OF this] flag mon
  show "get_position s' m = get_position s m" and "inside_sticky (heap s' m)"
    and "cls (heap s' m) = Monster" and "a_delay (heap s' m) = a_delay (heap s m)"
    by (simp_all add: kept_def get_position_def)
qed

text \<open>A Monster at (5, 5) with delay 3 under a sticky, with \<^verbatim>\<open>inside_sticky\<close> set, and a
  player at (0, 0).\<close>

definition ensnared_stage :: stage where
  "ensnared_stage =
     place (place (place_player (new_Stage 20 20) 2 (new_actor KeyboardPlayer 0 0 5))
       0 ((new_actor Monster 5 5 3)\<lparr>inside_sticky := True\<rparr>)) 1 (new_actor sticky 5 5 5)"

theorem C6_ensnared_Monster_stays_witness:
  "inside_sticky (heap ensnared_stage 0) \<and> cls (heap ensnared_stage 0) = Monster \<and>
   a_delay (heap ensnared_stage 0) \<noteq> 0 \<and> 0 \<in> set (actors ensnared_stage) \<and>
   (\<exists>s'. Monster_step ensnared_stage 0 = Inr (s', Some True) \<and>
         get_position s' 0 = (5, 5) \<and> inside_sticky (heap s' 0)) \<and>
   (\<exists>s'. game_loop ensnared_stage [[K_d], []] = Inr s' \<and> get_position s' 0 = (5, 5))"
proof -
  have h1: "inside_sticky (heap ensnared_stage 0)"
    and h2: "cls (heap ensnared_stage 0) = Monster"
    and h3: "a_delay (heap ensnared_stage 0) \<noteq> 0 \<and> 0 \<in> set (actors ensnared_stage)"
    and p: "get_position ensnared_stage 0 = (5, 5)"
    by (simp_all add: ensnared_stage_def run_simps)
  obtain s2 where g: "game_loop ensnared_stage [[K_d], []] = Inr s2"
    by (simp add: ensnared_stage_def player_event_def run_simps)
  note C6 = C6_ensnared_Monster_stays [OF h1 h2, unfolded p]
  from C6 h3 have a: "\<exists>s'. Monster_step ensnared_stage 0 = Inr (s', Some True) \<and>
         get_position s' 0 = (5, 5) \<and> inside_sticky (heap s' 0)" by blast
  from C6 g have "get_position s2 0 = (5, 5)" by blast
  with g have b: "\<exists>s'. game_loop ensnared_stage [[K_d], []] = Inr s' \<and> get_position s' 0 = (5, 5)"
    by blast
  from h1 h2 h3 a b show ?thesis by blast
qed

section \<open>The buffered key event\<close>




















section \<open>Push chains\<close>

text \<open>
  \<open>chain s bs x y dx dy\<close>: the objects \<open>bs\<close> are Boxes or stickies, are on the stage, and
  stand on the consecutive cells from \<open>(x, y)\<close> on in direction \<open>(dx, dy)\<close>, each the only
  actor of the stage on its cell.  \<open>move_frames s bs\<close> is the number of nested calls of
  \<^verbatim>\<open>move\<close> that a push through \<open>bs\<close> makes: one for a Box, two for a sticky.
  \<open>advanced s bs dx dy\<close> is the stage \<open>s\<close> with each of \<open>bs\<close> one cell further in that
  direction and nothing else changed.
\<close>

fun chain :: "stage \<Rightarrow> nat list \<Rightarrow> int \<Rightarrow> int \<Rightarrow> int \<Rightarrow> int \<Rightarrow> bool" where
  "chain s [] x y dx dy = True"
| "chain s (b # bs) x y dx dy =
     (isinstance_Box (cls (heap s b)) \<and> b \<in> set (actors s) \<and>
      (\<forall>a \<in> set (actors s). (get_position s a = (x, y)) = (a = b)) \<and>
      chain s bs (x + dx) (y + dy) dx dy)"

definition move_frames :: "stage \<Rightarrow> nat list \<Rightarrow> nat" where
  "move_frames s bs = sum_list (map (\<lambda>b. if cls (heap s b) = sticky then 2 else 1) bs)"

definition advanced :: "stage \<Rightarrow> nat list \<Rightarrow> int \<Rightarrow> int \<Rightarrow> stage" where
  "advanced s bs dx dy =
     s\<lparr>heap := (\<lambda>a. if a \<in> set bs
                     then (heap s a)\<lparr>a_x := a_x (heap s a) + dx, a_y := a_y (heap s a) + dy\<rparr>
                     else heap s a)\<rparr>"

text \<open>A Box followed by a sticky followed by a Monster, and the player west of the Box.\<close>

definition push_stage :: stage where
  "push_stage =
     place (place (place (place_player (new_Stage 20 20) 3 (new_actor KeyboardPlayer 0 0 5))
       2 (new_actor Monster 3 0 5)) 0 (new_actor Box 1 0 5)) 1 (new_actor sticky 2 0 5)"

text \<open>A Box and a sticky in a row with a free cell after them; the same with a Wall on that
  cell; and two Boxes in a row with a Monster after them.\<close>

definition box_sticky_stage :: stage where
  "box_sticky_stage =
     place (place (place_player (new_Stage 20 20) 0 (new_actor KeyboardPlayer 0 0 5))
       1 (new_actor Box 1 0 5)) 2 (new_actor sticky 2 0 5)"

definition box_sticky_wall_stage :: stage where
  "box_sticky_wall_stage = place box_sticky_stage 3 (new_actor Wall 3 0 5)"

definition two_boxes_monster_stage :: stage where
  "two_boxes_monster_stage =
     place (place (place (place_player (new_Stage 20 20) 0 (new_actor KeyboardPlayer 0 0 5))
       1 (new_actor Box 1 0 5)) 2 (new_actor Box 2 0 5)) 3 (new_actor Monster 3 0 5)"

lemma find_the_only:
  "b \<in> set xs \<Longrightarrow> \<forall>a \<in> set xs. P a = (a = b) \<Longrightarrow> find P xs = Some b"
  by (induction xs) auto

lemma chain_head:
  assumes "chain s (b # bs) x y dx dy"
  shows "get_actor s x y = Some b" and "get_position s b = (x, y)"
    and "isinstance_Box (cls (heap s b))"
  using assms by (auto simp: get_actor_def intro: find_the_only)

lemma chain_member:
  "chain s bs x y dx dy \<Longrightarrow> a \<in> set bs \<Longrightarrow>
   \<exists>k. get_position s a = (x + int k * dx, y + int k * dy)"
proof (induction bs arbitrary: x y)
  case Nil
  then show ?case by simp
next
  case (Cons b bs)
  show ?case
  proof (cases "a = b")
    case True
    with chain_head(2) [OF Cons.prems(1)] show ?thesis by (intro exI [of _ 0]) simp
  next
    case False
    with Cons.prems have "chain s bs (x + dx) (y + dy) dx dy" "a \<in> set bs" by simp_all
    from Cons.IH [OF this] obtain k where
      "get_position s a = (x + dx + int k * dx, y + dy + int k * dy)" by blast
    then show ?thesis by (intro exI [of _ "Suc k"]) (simp add: algebra_simps)
  qed
qed

lemma shifted_off:
  assumes "\<not> (dx = 0 \<and> dy = 0)"
  shows "(x + int (Suc k) * dx, y + int (Suc k) * dy) \<noteq> ((x::int), (y::int))"
  using assms by auto

lemma chain_tail_elsewhere:
  assumes c: "chain s bs (x + dx) (y + dy) dx dy" and a: "a \<in> set bs"
    and nz: "\<not> (dx = 0 \<and> dy = 0)"
  shows "get_position s a \<noteq> (x, y)"
proof -
  from chain_member [OF c a] obtain k where
    "get_position s a = (x + dx + int k * dx, y + dy + int k * dy)" by blast
  then have "get_position s a = (x + int (Suc k) * dx, y + int (Suc k) * dy)"
    by (simp add: algebra_simps)
  with shifted_off [OF nz, of x k y] show ?thesis by simp
qed

lemma get_actor_advanced_None:
  assumes c: "chain s (b # bs) x y dx dy" and nz: "\<not> (dx = 0 \<and> dy = 0)"
  shows "get_actor (advanced s (b # bs) dx dy) x y = None"
proof -
  have "get_position (advanced s (b # bs) dx dy) a \<noteq> (x, y)" if a: "a \<in> set (actors s)" for a
  proof (cases "a \<in> set (b # bs)")
    case False
    then have "get_position (advanced s (b # bs) dx dy) a = get_position s a"
      by (simp add: advanced_def get_position_def)
    moreover from c a False have "get_position s a \<noteq> (x, y)" by auto
    ultimately show ?thesis by simp
  next
    case True
    from chain_member [OF c True] obtain k where
      k: "get_position s a = (x + int k * dx, y + int k * dy)" by blast
    from True have "get_position (advanced s (b # bs) dx dy) a =
        (a_x (heap s a) + dx, a_y (heap s a) + dy)"
      by (simp add: advanced_def get_position_def)
    with k have "get_position (advanced s (b # bs) dx dy) a =
        (x + int (Suc k) * dx, y + int (Suc k) * dy)"
      by (simp add: get_position_def algebra_simps)
    with shifted_off [OF nz, of x k y] show ?thesis by simp
  qed
  then show ?thesis
    by (simp add: get_actor_def find_None_iff advanced_def)
qed

lemma Actor_move_advanced:
  assumes "b \<notin> set bs"
  shows "Actor_move (advanced s bs dx dy) b other dx dy = advanced s (b # bs) dx dy"
  using assms by (simp add: Actor_move_def set_position_def advanced_def fun_eq_iff)

lemma sticky_move_at_no_Monster:
  assumes "\<not> (case get_actor s (a_x (heap s b) + dx) (a_y (heap s b) + dy) of
               None \<Rightarrow> False | Some m \<Rightarrow> cls (heap s m) = Monster)"
    and "Box_move_at n s b other dx dy = Inr (s', r)"
  shows "sticky_move_at (Suc n) s b other dx dy = Inr (s', None)"
  using assms by (simp add: sticky_move_at.simps [of "Suc n" s b] Let_def)

lemma chain_next_not_Monster:
  assumes c: "chain s (b # bs) x y dx dy" and st: "cls (heap s b) = sticky"
    and past: "\<forall>c. get_actor s (x + (int (length bs) + 1) * dx) (y + (int (length bs) + 1) * dy) = Some c
                 \<longrightarrow> \<not> isinstance_Box (cls (heap s c)) \<and>
                     (cls (heap s c) = Monster \<longrightarrow> cls (heap s (last (b # bs))) \<noteq> sticky)"
  shows "\<not> (case get_actor s (a_x (heap s b) + dx) (a_y (heap s b) + dy) of
               None \<Rightarrow> False | Some m \<Rightarrow> cls (heap s m) = Monster)"
proof -
  from chain_head(2) [OF c] have pos: "a_x (heap s b) = x" "a_y (heap s b) = y"
    by (simp_all add: get_position_def)
  show ?thesis
  proof (cases bs)
    case Nil
    with past st show ?thesis by (auto simp: pos split: option.splits)
  next
    case (Cons b' bs')
    with c have "chain s (b' # bs') (x + dx) (y + dy) dx dy" by simp
    from chain_head(1,3) [OF this] show ?thesis
      by (auto simp: pos isinstance_Box_def)
  qed
qed

lemma Box_move_at_chain:
  assumes nz: "\<not> (dx = 0 \<and> dy = 0)"
  shows "chain s (b # bs) x y dx dy \<Longrightarrow>
    \<forall>c. get_actor s (x + (int (length bs) + 1) * dx) (y + (int (length bs) + 1) * dy) = Some c
         \<longrightarrow> \<not> isinstance_Box (cls (heap s c)) \<and>
             (cls (heap s c) = Monster \<longrightarrow> cls (heap s (last (b # bs))) \<noteq> sticky) \<Longrightarrow>
    Suc (move_frames s bs) \<le> n \<Longrightarrow>
    Box_move_at n s b other dx dy =
      (if is_in_bounds s (x + (int (length bs) + 1) * dx) (y + (int (length bs) + 1) * dy) \<and>
          get_actor s (x + (int (length bs) + 1) * dx) (y + (int (length bs) + 1) * dy) = None
       then Inr (advanced s (b # bs) dx dy, Some True)
       else Inr (s, Some False))"
proof (induction bs arbitrary: b x y other n)
  case Nil
  from chain_head(2) [OF Nil.prems(1)] have pos: "a_x (heap s b) = x" "a_y (heap s b) = y"
    by (simp_all add: get_position_def)
  have adv: "Actor_move s b other dx dy = advanced s [b] dx dy"
    by (simp add: Actor_move_def set_position_def advanced_def fun_eq_iff)
  from Nil.prems(3) have n: "n \<noteq> 0" by simp
  from Nil.prems(2) n show ?case
    by (cases "get_actor s (x + dx) (y + dy)")
       (simp_all add: Box_move_at.simps [of n s b] pos adv)
next
  case (Cons b' bs)
  from chain_head(2) [OF Cons.prems(1)] have pos: "a_x (heap s b) = x" "a_y (heap s b) = y"
    by (simp_all add: get_position_def)
  from Cons.prems(1) have tail: "chain s (b' # bs) (x + dx) (y + dy) dx dy" by simp
  note next_box = chain_head [OF tail]
  let ?qx = "x + (int (length (b' # bs)) + 1) * dx" and ?qy = "y + (int (length (b' # bs)) + 1) * dy"
  let ?free = "is_in_bounds s ?qx ?qy \<and> get_actor s ?qx ?qy = None"
  let ?res = "if ?free then advanced s (b' # bs) dx dy else s"
  have q: "x + dx + (int (length bs) + 1) * dx = ?qx" "y + dy + (int (length bs) + 1) * dy = ?qy"
    by (simp_all add: algebra_simps)
  from Cons.prems(2) have past': "\<forall>c. get_actor s (x + dx + (int (length bs) + 1) * dx)
         (y + dy + (int (length bs) + 1) * dy) = Some c \<longrightarrow> \<not> isinstance_Box (cls (heap s c)) \<and>
             (cls (heap s c) = Monster \<longrightarrow> cls (heap s (last (b' # bs))) \<noteq> sticky)"
    unfolding q by simp
  from Cons.prems(3) have n: "n \<noteq> 0" by simp
  have b_not: "b \<notin> set (b' # bs)"
    using chain_tail_elsewhere [OF tail _ nz, of b] chain_head(2) [OF Cons.prems(1)] by blast
  have inner: "\<exists>r. (if cls (heap s b') = sticky then sticky_move_at (n - 1) s b' b dx dy
                  else Box_move_at (n - 1) s b' b dx dy) = Inr (?res, r)"
  proof (cases "cls (heap s b') = sticky")
    case False
    with Cons.prems(3) have "Suc (move_frames s bs) \<le> n - 1" by (simp add: move_frames_def)
    from Cons.IH [OF tail past' this, of b, unfolded q] False show ?thesis by auto
  next
    case True
    with Cons.prems(3) obtain m where m: "n - 1 = Suc m" "Suc (move_frames s bs) \<le> m"
      by (cases n; cases "n - 1") (simp_all add: move_frames_def)
    from Cons.IH [OF tail past' m(2), of b, unfolded q]
    have "\<exists>r. Box_move_at m s b' b dx dy = Inr (?res, r)" by auto
    then obtain r where "Box_move_at m s b' b dx dy = Inr (?res, r)" by blast
    from sticky_move_at_no_Monster [OF chain_next_not_Monster [OF tail True past'] this] True m(1)
    show ?thesis by auto
  qed
  then obtain r where call: "(if cls (heap s b') = sticky then sticky_move_at (n - 1) s b' b dx dy
                  else Box_move_at (n - 1) s b' b dx dy) = Inr (?res, r)" by blast
  show ?case
  proof (cases ?free)
    case True
    have empty: "get_actor (advanced s (b' # bs) dx dy) (x + dx) (y + dy) = None"
      by (rule get_actor_advanced_None [OF tail nz])
    from call have call': "(if cls (heap s b') = sticky then sticky_move_at (n - 1) s b' b dx dy
                  else Box_move_at (n - 1) s b' b dx dy) = Inr (advanced s (b' # bs) dx dy, r)"
      using True by simp
    show ?thesis
      using True next_box n empty Actor_move_advanced [OF b_not]
      by (simp add: Box_move_at.simps [of n s b] pos call' del: chain.simps)
  next
    case False
    from call have call': "(if cls (heap s b') = sticky then sticky_move_at (n - 1) s b' b dx dy
                  else Box_move_at (n - 1) s b' b dx dy) = Inr (s, r)"
      using False by (auto split: if_splits)
    show ?thesis
      using False next_box n
      by (simp add: Box_move_at.simps [of n s b] pos call' del: chain.simps)
  qed
qed

text \<open>
  Claim C3: for a chain of N consecutive Boxes and a move request in the chain's direction,
  all N Boxes advance by one cell iff the cell immediately past the last Box is empty and
  in bounds; otherwise the request returns false and no Box of the chain changes position.

  As stated this fails where a sticky stands in front of a Monster: in \<open>push_stage\<close> the
  cell past the Box holds a sticky and the cell past the sticky holds a Monster, so no cell
  past the chain is empty, however the chain is delimited; yet the sticky moves onto the
  Monster, the Box follows, and the request returns \<^verbatim>\<open>True\<close>.
\<close>

theorem C3_sticky_counterexample:
  "get_actor push_stage 1 0 = Some 0 \<and> cls (heap push_stage 0) = Box \<and>
   get_actor push_stage 2 0 = Some 1 \<and> cls (heap push_stage 1) = sticky \<and>
   get_actor push_stage 3 0 = Some 2 \<and> cls (heap push_stage 2) = Monster \<and>
   Box_move push_stage 0 3 1 0 =
     Inr (place (place (place (place_player (new_Stage 20 20) 3 (new_actor KeyboardPlayer 0 0 5))
            2 ((new_actor Monster 3 0 5)\<lparr>inside_sticky := True\<rparr>)) 0 (new_actor Box 2 0 5))
            1 (new_actor sticky 3 0 5),
          Some True)"
  by (simp add: push_stage_def run_simps)

text \<open>
  Claim C3, amended: for a chain of one or more Boxes and stickies, each the only actor on
  its cell, that needs no more nested calls of \<^verbatim>\<open>move\<close> than the recursion limit of the
  interpreter allows (one for a Box, two for a sticky), and a move request to the first of
  them in the direction of the chain, not (0, 0): if the cell past the last of them is in
  bounds and empty, every one of them advances by one cell and nothing else changes; if
  that cell is out of bounds or occupied, its first occupant is not a Box or a sticky, and
  it is not a Monster while the last of the chain is a sticky, nothing changes.  When the
  first of the chain is a Box, the request returns \<^verbatim>\<open>True\<close> in the first case and \<^verbatim>\<open>False\<close>
  in the second.
\<close>

theorem C3_chain_advances_or_stays:
  assumes c: "chain s (b # bs) x y dx dy" and nz: "\<not> (dx = 0 \<and> dy = 0)"
    and room: "move_frames s (b # bs) \<le> move_depth_limit s"
    and past: "\<forall>c. get_actor s (x + (int (length bs) + 1) * dx) (y + (int (length bs) + 1) * dy) = Some c
                 \<longrightarrow> \<not> isinstance_Box (cls (heap s c)) \<and>
                     (cls (heap s c) = Monster \<longrightarrow> cls (heap s (last (b # bs))) \<noteq> sticky)"
  shows "\<exists>r. move_of_Box_instance s b other dx dy =
               (if is_in_bounds s (x + (int (length bs) + 1) * dx) (y + (int (length bs) + 1) * dy) \<and>
                   get_actor s (x + (int (length bs) + 1) * dx) (y + (int (length bs) + 1) * dy) = None
                then Inr (advanced s (b # bs) dx dy, r)
                else Inr (s, r)) \<and>
             (cls (heap s b) = Box \<longrightarrow>
                r = Some (is_in_bounds s (x + (int (length bs) + 1) * dx) (y + (int (length bs) + 1) * dy) \<and>
                          get_actor s (x + (int (length bs) + 1) * dx) (y + (int (length bs) + 1) * dy) = None))"
proof -
  let ?free = "is_in_bounds s (x + (int (length bs) + 1) * dx) (y + (int (length bs) + 1) * dy) \<and>
               get_actor s (x + (int (length bs) + 1) * dx) (y + (int (length bs) + 1) * dy) = None"
  let ?res = "if ?free then advanced s (b # bs) dx dy else s"
  have "\<exists>r. move_of_Box_instance s b other dx dy = Inr (?res, r) \<and>
            (cls (heap s b) = Box \<longrightarrow> r = Some ?free)"
  proof (cases "cls (heap s b) = sticky")
    case False
    with room have "Suc (move_frames s bs) \<le> move_depth_limit s" by (simp add: move_frames_def)
    from Box_move_at_chain [OF nz c past this, of other]
    have "Box_move_at (move_depth_limit s) s b other dx dy = Inr (?res, Some ?free)"
      by (auto split: if_splits)
    with False show ?thesis by (simp add: move_of_Box_instance_def Box_move_def)
  next
    case True
    with room obtain m where m: "move_depth_limit s = Suc m" "Suc (move_frames s bs) \<le> m"
      by (cases "move_depth_limit s") (simp_all add: move_frames_def)
    from Box_move_at_chain [OF nz c past m(2), of other]
    have "Box_move_at m s b other dx dy = Inr (?res, Some ?free)"
      by (auto split: if_splits)
    from sticky_move_at_no_Monster [OF chain_next_not_Monster [OF c True past] this] True m(1)
    show ?thesis by (simp add: move_of_Box_instance_def sticky_move_def)
  qed
  then obtain r where r: "move_of_Box_instance s b other dx dy = Inr (?res, r)"
    and v: "cls (heap s b) = Box \<longrightarrow> r = Some ?free" by blast
  from r have "move_of_Box_instance s b other dx dy =
      (if ?free then Inr (advanced s (b # bs) dx dy, r) else Inr (s, r))"
    by (simp split: if_splits)
  with v show ?thesis by blast
qed

theorem C3_chain_advances_or_stays_witness:
  "chain box_sticky_stage [1, 2] 1 0 1 0 \<and> chain box_sticky_wall_stage [1, 2] 1 0 1 0 \<and>
   chain two_boxes_monster_stage [1, 2] 1 0 1 0 \<and>
   move_frames box_sticky_stage [1, 2] = 3 \<and> move_depth_limit box_sticky_stage = 993 \<and>
   is_in_bounds box_sticky_stage 3 0 \<and> get_actor box_sticky_stage 3 0 = None \<and>
   get_actor box_sticky_wall_stage 3 0 = Some 3 \<and> cls (heap box_sticky_wall_stage 3) = Wall \<and>
   get_actor two_boxes_monster_stage 3 0 = Some 3 \<and>
   cls (heap two_boxes_monster_stage 3) = Monster \<and>
   move_of_Box_instance box_sticky_stage 1 0 1 0 =
     Inr (advanced box_sticky_stage [1, 2] 1 0, Some True) \<and>
   get_position (advanced box_sticky_stage [1, 2] 1 0) 1 = (2, 0) \<and>
   get_position (advanced box_sticky_stage [1, 2] 1 0) 2 = (3, 0) \<and>
   move_of_Box_instance box_sticky_wall_stage 1 0 1 0 = Inr (box_sticky_wall_stage, Some False) \<and>
   move_of_Box_instance two_boxes_monster_stage 1 0 1 0 = Inr (two_boxes_monster_stage, Some False)"
proof -
  have c1: "chain box_sticky_stage (1 # [2]) 1 0 1 0"
    and c2: "chain box_sticky_wall_stage (1 # [2]) 1 0 1 0"
    and c3: "chain two_boxes_monster_stage (1 # [2]) 1 0 1 0"
    by (simp_all add: box_sticky_wall_stage_def box_sticky_stage_def two_boxes_monster_stage_def
          run_simps)
  have nz: "\<not> ((1::int) = 0 \<and> (0::int) = 0)" by simp
  have f1: "move_frames box_sticky_stage [1, 2] = 3"
    and f2: "move_frames box_sticky_wall_stage [1, 2] = 3"
    and f3: "move_frames two_boxes_monster_stage [1, 2] = 2"
    and l1: "move_depth_limit box_sticky_stage = 993"
    and l2: "move_depth_limit box_sticky_wall_stage = 993"
    and l3: "move_depth_limit two_boxes_monster_stage = 993"
    by (simp_all add: move_frames_def box_sticky_wall_stage_def box_sticky_stage_def
          two_boxes_monster_stage_def run_simps)
  have r1: "move_frames box_sticky_stage (1 # [2]) \<le> move_depth_limit box_sticky_stage"
    and r2: "move_frames box_sticky_wall_stage (1 # [2]) \<le> move_depth_limit box_sticky_wall_stage"
    and r3: "move_frames two_boxes_monster_stage (1 # [2]) \<le> move_depth_limit two_boxes_monster_stage"
    unfolding f1 f2 f3 l1 l2 l3 by simp_all
  have head: "cls (heap box_sticky_stage 1) = Box" "cls (heap box_sticky_wall_stage 1) = Box"
    "cls (heap two_boxes_monster_stage 1) = Box"
    and lst: "cls (heap two_boxes_monster_stage (last (1 # [2]))) \<noteq> sticky"
    by (simp_all add: box_sticky_wall_stage_def box_sticky_stage_def two_boxes_monster_stage_def
          run_simps)
  have free: "is_in_bounds box_sticky_stage 3 0" "get_actor box_sticky_stage 3 0 = None"
    and wall: "get_actor box_sticky_wall_stage 3 0 = Some 3"
      "cls (heap box_sticky_wall_stage 3) = Wall"
    and monster: "get_actor two_boxes_monster_stage 3 0 = Some 3"
      "cls (heap two_boxes_monster_stage 3) = Monster"
    by (simp_all add: box_sticky_wall_stage_def box_sticky_stage_def two_boxes_monster_stage_def
          run_simps)
  have p1: "\<forall>c. get_actor box_sticky_stage (1 + (int (length [2::nat]) + 1) * 1)
                  (0 + (int (length [2::nat]) + 1) * 0) = Some c
               \<longrightarrow> \<not> isinstance_Box (cls (heap box_sticky_stage c)) \<and>
                   (cls (heap box_sticky_stage c) = Monster \<longrightarrow>
                      cls (heap box_sticky_stage (last (1 # [2]))) \<noteq> sticky)"
    using free by simp
  have p2: "\<forall>c. get_actor box_sticky_wall_stage (1 + (int (length [2::nat]) + 1) * 1)
                  (0 + (int (length [2::nat]) + 1) * 0) = Some c
               \<longrightarrow> \<not> isinstance_Box (cls (heap box_sticky_wall_stage c)) \<and>
                   (cls (heap box_sticky_wall_stage c) = Monster \<longrightarrow>
                      cls (heap box_sticky_wall_stage (last (1 # [2]))) \<noteq> sticky)"
    using wall by (simp add: isinstance_Box_def)
  have p3: "\<forall>c. get_actor two_boxes_monster_stage (1 + (int (length [2::nat]) + 1) * 1)
                  (0 + (int (length [2::nat]) + 1) * 0) = Some c
               \<longrightarrow> \<not> isinstance_Box (cls (heap two_boxes_monster_stage c)) \<and>
                   (cls (heap two_boxes_monster_stage c) = Monster \<longrightarrow>
                      cls (heap two_boxes_monster_stage (last (1 # [2]))) \<noteq> sticky)"
    using monster lst by (simp add: isinstance_Box_def)
  have a: "move_of_Box_instance box_sticky_stage 1 0 1 0 =
             Inr (advanced box_sticky_stage [1, 2] 1 0, Some True)"
    using C3_chain_advances_or_stays [OF c1 nz r1 p1, of 0] free head by auto
  have b: "move_of_Box_instance box_sticky_wall_stage 1 0 1 0 =
             Inr (box_sticky_wall_stage, Some False)"
    using C3_chain_advances_or_stays [OF c2 nz r2 p2, of 0] wall head by auto
  have c: "move_of_Box_instance two_boxes_monster_stage 1 0 1 0 =
             Inr (two_boxes_monster_stage, Some False)"
    using C3_chain_advances_or_stays [OF c3 nz r3 p3, of 0] monster head by auto
  have pos: "get_position (advanced box_sticky_stage [1, 2] 1 0) 1 = (2, 0)"
    "get_position (advanced box_sticky_stage [1, 2] 1 0) 2 = (3, 0)"
    by (simp_all add: advanced_def box_sticky_stage_def run_simps)
  from c1 c2 c3 f1 l1 free wall monster a b c pos show ?thesis by simp
qed

text \<open>Where a Box shares its cell with another actor the push is not all or nothing: with
  a Wall on the cell of the second of two Boxes, the second Box advances, the first stays,
  and the request returns \<^verbatim>\<open>False\<close>.\<close>

lemma push_on_a_shared_cell:
  "Box_move (place (place (place (place_player (new_Stage 20 20) 0 (new_actor KeyboardPlayer 0 0 5))
       1 (new_actor Box 1 0 5)) 2 (new_actor Box 2 0 5)) 3 (new_actor Wall 2 0 5)) 1 0 1 0 =
   Inr (place (place (place (place_player (new_Stage 20 20) 0 (new_actor KeyboardPlayer 0 0 5))
       1 (new_actor Box 1 0 5)) 2 (new_actor Box 3 0 5)) 3 (new_actor Wall 2 0 5), Some False)"
  by (simp add: run_simps)

text \<open>Beyond the recursion limit: were only one nested call of \<^verbatim>\<open>move\<close> allowed, the push of
  two Boxes in a row would raise RecursionError, and so would the step of a player that
  has received the key d and stands west of them.\<close>

lemma push_beyond_the_recursion_limit:
  "Box_move ((place (place (place_player (new_Stage 20 20) 0 (new_actor KeyboardPlayer 0 0 5))
       1 (new_actor Box 1 0 5)) 2 (new_actor Box 2 0 5))\<lparr>move_depth_limit := 1\<rparr>) 1 0 1 0 =
     Inl RecursionError \<and>
   KeyboardPlayer_step
     (handle_event ((place (place (place_player (new_Stage 20 20) 0 (new_actor KeyboardPlayer 0 0 5))
       1 (new_actor Box 1 0 5)) 2 (new_actor Box 2 0 5))\<lparr>move_depth_limit := 1\<rparr>) 0 K_d) 0 =
     Inl RecursionError"
  by (simp add: run_simps)

end
